theory Spec2Isabelle
  imports Complex_Main "HOL-Library.Log_Nat"
begin

section \<open>Array elements\<close>

text \<open>
  The arrays of \<^verbatim>\<open>rnn_test_eeg.py\<close> hold float64 values: a finite value, one of the two
  infinities, or NaN. The result of an arithmetic operation on finite values is the exact
  result rounded to the nearest float64, ties to even, with gradual underflow and with
  overflow to an infinity; operations with a special value follow IEEE 754. Zero is
  unsigned. The finite elements that occur in a run are representable values, which
  \<open>rnd\<close> leaves as they are.
\<close>

datatype f64 = Fin real | PInf | NInf | NaN

datatype error = ValueError | IndexError | TypeError

text \<open>Rounding to the nearest integer, ties to the even one.\<close>

definition round_even :: "real \<Rightarrow> int" where
  "round_even q =
     (let f = \<lfloor>q\<rfloor>; r = q - of_int f
      in if r < 1 / 2 then f else if 1 / 2 < r then f + 1 else if even f then f else f + 1)"

text \<open>
  The binary exponent \<open>\<lfloor>log\<^sub>2 \<bar>x\<bar>\<rfloor>\<close> of a value, computed from the bit length of its integer
  part, or of the integer part of its reciprocal for a value below 1.
\<close>

definition ilog2 :: "real \<Rightarrow> int" where
  "ilog2 x =
     (if x = 0 then 0
      else if 1 \<le> \<bar>x\<bar> then bitlen \<lfloor>\<bar>x\<bar>\<rfloor> - 1
      else - bitlen (\<lceil>1 / \<bar>x\<bar>\<rceil> - 1))"

text \<open>
  The exponent at which a value is rounded: its binary exponent, but not below that of the
  smallest normal number; and the distance of neighbouring float64 values with that
  exponent (53 significant bits).
\<close>

definition expo :: "real \<Rightarrow> int" where
  "expo x = max (ilog2 x) (- 1022)"

definition ulp :: "real \<Rightarrow> real" where
  "ulp x = 2 powi (expo x - 52)"

text \<open>A rounded result of magnitude \<open>2 ^ 1024\<close> or more is an infinity.\<close>

definition huge :: real where
  "huge = 2 ^ 1024"

definition rnd :: "real \<Rightarrow> f64" where
  "rnd x =
     (if x = 0 then Fin 0
      else
        (let y = of_int (round_even (x / ulp x)) * ulp x
         in if huge \<le> \<bar>y\<bar> then (if 0 < x then PInf else NInf) else Fin y))"

fun fneg :: "f64 \<Rightarrow> f64" where
  "fneg (Fin x) = Fin (- x)"
| "fneg PInf = NInf"
| "fneg NInf = PInf"
| "fneg NaN = NaN"

fun fabs :: "f64 \<Rightarrow> f64" where
  "fabs (Fin x) = Fin \<bar>x\<bar>"
| "fabs PInf = PInf"
| "fabs NInf = PInf"
| "fabs NaN = NaN"

fun fadd :: "f64 \<Rightarrow> f64 \<Rightarrow> f64" where
  "fadd (Fin a) (Fin b) = rnd (a + b)"
| "fadd (Fin a) PInf = PInf"
| "fadd (Fin a) NInf = NInf"
| "fadd PInf (Fin b) = PInf"
| "fadd PInf PInf = PInf"
| "fadd PInf NInf = NaN"
| "fadd NInf (Fin b) = NInf"
| "fadd NInf PInf = NaN"
| "fadd NInf NInf = NInf"
| "fadd NaN y = NaN"
| "fadd x NaN = NaN"

definition fsub :: "f64 \<Rightarrow> f64 \<Rightarrow> f64" where
  "fsub x y = fadd x (fneg y)"

text \<open>The sign of a product or quotient with an infinite operand; zero is unsigned.\<close>

definition signed_inf :: "real \<Rightarrow> f64" where
  "signed_inf a = (if a = 0 then NaN else if 0 < a then PInf else NInf)"

fun fmul :: "f64 \<Rightarrow> f64 \<Rightarrow> f64" where
  "fmul (Fin a) (Fin b) = rnd (a * b)"
| "fmul (Fin a) PInf = signed_inf a"
| "fmul (Fin a) NInf = signed_inf (- a)"
| "fmul PInf (Fin b) = signed_inf b"
| "fmul NInf (Fin b) = signed_inf (- b)"
| "fmul PInf PInf = PInf"
| "fmul PInf NInf = NInf"
| "fmul NInf PInf = NInf"
| "fmul NInf NInf = PInf"
| "fmul NaN y = NaN"
| "fmul x NaN = NaN"

text \<open>Array division does not raise: a zero divisor gives an infinity or NaN.\<close>

fun fdiv :: "f64 \<Rightarrow> f64 \<Rightarrow> f64" where
  "fdiv (Fin a) (Fin b) = (if b = 0 then signed_inf a else rnd (a / b))"
| "fdiv (Fin a) PInf = Fin 0"
| "fdiv (Fin a) NInf = Fin 0"
| "fdiv PInf (Fin b) = (if 0 \<le> b then PInf else NInf)"
| "fdiv NInf (Fin b) = (if 0 \<le> b then NInf else PInf)"
| "fdiv PInf PInf = NaN"
| "fdiv PInf NInf = NaN"
| "fdiv NInf PInf = NaN"
| "fdiv NInf NInf = NaN"
| "fdiv NaN y = NaN"
| "fdiv x NaN = NaN"

text \<open>The order of the non-NaN elements.\<close>

fun fle :: "f64 \<Rightarrow> f64 \<Rightarrow> bool" where
  "fle (Fin a) (Fin b) = (a \<le> b)"
| "fle NInf y = True"
| "fle x PInf = True"
| "fle PInf y = False"
| "fle x NInf = False"
| "fle NaN y = False"
| "fle x NaN = False"

definition is_inf :: "f64 \<Rightarrow> bool" where
  "is_inf x = (x = PInf \<or> x = NInf)"

section \<open>Two-dimensional arrays and the numpy operations used\<close>

text \<open>
  A two-dimensional array is the list of its rows. The arrays of the program are
  rectangular; an array of shape \<open>(0, k)\<close> is the empty list.
\<close>

type_synonym ndarray = "f64 list list"

definition rect :: "'a list list \<Rightarrow> bool" where
  "rect m = list_all (\<lambda>r. length r = length (hd m)) m"

definition ncols :: "'a list list \<Rightarrow> nat" where
  "ncols m = (if m = [] then 0 else length (hd m))"

text \<open>\<^verbatim>\<open>np.transpose\<close>: entry \<open>(j, i)\<close> of the result is entry \<open>(i, j)\<close> of the argument.\<close>

definition np_transpose :: "'a list list \<Rightarrow> 'a list list" where
  "np_transpose m = map (\<lambda>j. map (\<lambda>r. r ! j) m) [0..<ncols m]"

text \<open>
  \<^verbatim>\<open>np.minimum\<close> and \<^verbatim>\<open>np.maximum\<close> of two elements propagate NaN; \<^verbatim>\<open>np.amin\<close> and
  \<^verbatim>\<open>np.amax\<close> reduce with them and raise \<^verbatim>\<open>ValueError\<close> on an array without elements.
\<close>

definition np_minimum :: "f64 \<Rightarrow> f64 \<Rightarrow> f64" where
  "np_minimum a b = (if a = NaN \<or> b = NaN then NaN else if fle a b then a else b)"

definition np_maximum :: "f64 \<Rightarrow> f64 \<Rightarrow> f64" where
  "np_maximum a b = (if a = NaN \<or> b = NaN then NaN else if fle a b then b else a)"

definition amin1 :: "f64 list \<Rightarrow> error + f64" where
  "amin1 xs = (case xs of [] \<Rightarrow> Inl ValueError | x # ys \<Rightarrow> Inr (fold np_minimum ys x))"

definition amax1 :: "f64 list \<Rightarrow> error + f64" where
  "amax1 xs = (case xs of [] \<Rightarrow> Inl ValueError | x # ys \<Rightarrow> Inr (fold np_maximum ys x))"

definition np_amin :: "ndarray \<Rightarrow> error + f64" where
  "np_amin m = amin1 (concat m)"

text \<open>\<^verbatim>\<open>np.nanmin\<close> and \<^verbatim>\<open>np.nanmax\<close> skip NaN; an all-NaN slice gives NaN.\<close>

definition nanmin :: "f64 list \<Rightarrow> f64" where
  "nanmin xs = (case filter (\<lambda>x. x \<noteq> NaN) xs of [] \<Rightarrow> NaN | y # ys \<Rightarrow> fold np_minimum ys y)"

definition nanmax :: "f64 list \<Rightarrow> f64" where
  "nanmax xs = (case filter (\<lambda>x. x \<noteq> NaN) xs of [] \<Rightarrow> NaN | y # ys \<Rightarrow> fold np_maximum ys y)"

text \<open>Element-wise application of a function that may raise; the first failure wins.\<close>

fun map_err :: "('a \<Rightarrow> error + 'b) \<Rightarrow> 'a list \<Rightarrow> error + 'b list" where
  "map_err f [] = Inr []"
| "map_err f (x # xs) =
     (case f x of Inl e \<Rightarrow> Inl e
      | Inr y \<Rightarrow> (case map_err f xs of Inl e \<Rightarrow> Inl e | Inr ys \<Rightarrow> Inr (y # ys)))"

text \<open>
  \<^verbatim>\<open>np.vectorize(f)(a)\<close> applies \<open>f\<close> to every element in row-major order and raises
  \<^verbatim>\<open>ValueError\<close> on an array of size 0.
\<close>

definition np_vectorize :: "(f64 \<Rightarrow> error + f64) \<Rightarrow> ndarray \<Rightarrow> error + ndarray" where
  "np_vectorize f a = (if concat a = [] then Inl ValueError else map_err (map_err f) a)"

section \<open>The store of arrays\<close>

text \<open>
  Arrays are objects shared by reference: a function that receives an array and updates it
  in place changes the caller's array. The store lists the arrays allocated so far; a
  reference is an index into it.
\<close>

type_synonym ref = nat
type_synonym store = "ndarray list"

definition alloc :: "store \<Rightarrow> ndarray \<Rightarrow> store \<times> ref" where
  "alloc s a = (s @ [a], length s)"

section \<open>The library's MinMaxScaler\<close>

text \<open>
  \<^verbatim>\<open>sklearn.preprocessing.MinMaxScaler(feature_range=(0,1))\<close>. Its argument has one row per
  sample and one column per feature. Input validation raises \<^verbatim>\<open>ValueError\<close> on an array
  without samples or without features and on an infinite element; NaN is treated as a missing
  value. The fitted attributes are kept per feature:
  \<open>scale = (1 - 0) / handle_zeros_in_scale (data_max - data_min)\<close> and
  \<open>min = 0 - data_min * scale\<close>. A range below ten machine epsilons is taken for constant
  and replaced by 1 (older versions of the library replace a range equal to zero only).
  The transform is \<open>X * scale + min\<close>, the inverse \<open>(X - min) / scale\<close>.
\<close>

record MinMaxScaler =
  data_min :: "f64 list"
  data_max :: "f64 list"
  data_range :: "f64 list"
  sk_scale :: "f64 list"
  sk_min :: "f64 list"

definition machine_eps :: real where
  "machine_eps = 1 / 2 ^ 52"

fun handle_zeros_in_scale :: "f64 \<Rightarrow> f64" where
  "handle_zeros_in_scale (Fin v) = (if v < 10 * machine_eps then Fin 1 else Fin v)"
| "handle_zeros_in_scale NInf = Fin 1"
| "handle_zeros_in_scale PInf = PInf"
| "handle_zeros_in_scale NaN = NaN"

definition check_array :: "ndarray \<Rightarrow> bool" where
  "check_array X = (X \<noteq> [] \<and> ncols X \<noteq> 0 \<and> \<not> list_ex is_inf (concat X))"

definition sk_fit :: "ndarray \<Rightarrow> MinMaxScaler" where
  "sk_fit X =
     (let cols = np_transpose X;
          dmin = map nanmin cols;
          dmax = map nanmax cols;
          drange = map2 fsub dmax dmin;
          scale = map (\<lambda>r. fdiv (fsub (Fin 1) (Fin 0)) (handle_zeros_in_scale r)) drange;
          mn = map2 (\<lambda>m s. fsub (Fin 0) (fmul m s)) dmin scale
      in \<lparr>data_min = dmin, data_max = dmax, data_range = drange, sk_scale = scale, sk_min = mn\<rparr>)"

definition sk_transform :: "MinMaxScaler \<Rightarrow> ndarray \<Rightarrow> ndarray" where
  "sk_transform sc X =
     map (\<lambda>row. map (\<lambda>(x, s, m). fadd (fmul x s) m) (zip row (zip (sk_scale sc) (sk_min sc)))) X"

definition sk_inverse_transform :: "MinMaxScaler \<Rightarrow> ndarray \<Rightarrow> ndarray" where
  "sk_inverse_transform sc X =
     map (\<lambda>row. map (\<lambda>(x, s, m). fdiv (fsub x m) s) (zip row (zip (sk_scale sc) (sk_min sc)))) X"

definition fit_transform :: "ndarray \<Rightarrow> error + ndarray \<times> MinMaxScaler" where
  "fit_transform X =
     (if check_array X then (let sc = sk_fit X in Inr (sk_transform sc X, sc))
      else Inl ValueError)"

section \<open>The scalers of the program\<close>

text \<open>
  A scaler takes the store and the reference of its argument and returns the store after
  the call together with its result or the error raised: an update made before an error
  stays.

  \<^verbatim>\<open>minmax_scale(data)\<close>: the scaler is fitted on the transpose of \<open>data\<close>, so that every
  row of \<open>data\<close> (a trial) is one feature; the result is transposed back. The transposes are
  views; the scaled array is a new object and \<open>data\<close> is only read.
\<close>

definition minmax_scale :: "store \<Rightarrow> ref \<Rightarrow> store \<times> (error + ref \<times> MinMaxScaler)" where
  "minmax_scale s data =
     (case fit_transform (np_transpose (s ! data)) of
        Inl e \<Rightarrow> (s, Inl e)
      | Inr (data_scaled, scaler) \<Rightarrow>
          (let (s', r) = alloc s (np_transpose data_scaled) in (s', Inr (r, scaler))))"

text \<open>
  \<^verbatim>\<open>math.log(t, 12)\<close> is the quotient of the logarithms of \<open>t\<close> and of 12; it raises
  \<^verbatim>\<open>ValueError\<close> (math domain error) for \<open>t \<le> 0\<close> and for minus infinity, and returns NaN
  and infinity unchanged. The base is the default \<^verbatim>\<open>log_base=12\<close>, which no caller
  overrides. The logarithm and the power function of the C library are taken as correctly
  rounded.
\<close>

definition log_base :: real where
  "log_base = 12"

fun py_log :: "f64 \<Rightarrow> error + f64" where
  "py_log (Fin t) =
     (if t \<le> 0 then Inl ValueError else Inr (fdiv (rnd (ln t)) (rnd (ln log_base))))"
| "py_log PInf = Inr PInf"
| "py_log NInf = Inl ValueError"
| "py_log NaN = Inr NaN"

text \<open>
  \<^verbatim>\<open>log_scale(data)\<close>: \<open>inc = 1 + abs(np.amin(data))\<close>, then \<^verbatim>\<open>data += inc\<close>, which updates the
  array that \<open>data\<close> refers to in place, then the logarithm of every element, in a new array.
  \<open>shift_in_place\<close> is the first two statements.
\<close>

definition shift_in_place :: "store \<Rightarrow> ref \<Rightarrow> store \<times> (error + f64)" where
  "shift_in_place s data =
     (case np_amin (s ! data) of
        Inl e \<Rightarrow> (s, Inl e)
      | Inr m \<Rightarrow>
          (let inc = fadd (Fin 1) (fabs m)
           in (s[data := map (map (\<lambda>x. fadd x inc)) (s ! data)], Inr inc)))"

definition log_scale :: "store \<Rightarrow> ref \<Rightarrow> store \<times> (error + ref \<times> f64)" where
  "log_scale s data =
     (case shift_in_place s data of
        (s1, Inl e) \<Rightarrow> (s1, Inl e)
      | (s1, Inr inc) \<Rightarrow>
          (case np_vectorize py_log (s1 ! data) of
             Inl e \<Rightarrow> (s1, Inl e)
           | Inr data_scaled \<Rightarrow> (let (s2, r) = alloc s1 data_scaled in (s2, Inr (r, inc)))))"

text \<open>
  \<^verbatim>\<open>inv_logscale(data, inc)\<close>: \<^verbatim>\<open>data = np.power(log_base, data)\<close> binds the local name to a
  new array, so the following \<^verbatim>\<open>data -= inc\<close> updates that new array and not the caller's;
  the function is a pure function of the values. It is applied to one-dimensional arrays by
  \<open>main\<close>.
\<close>

fun np_power :: "f64 \<Rightarrow> f64" where
  "np_power (Fin x) = rnd (log_base powr x)"
| "np_power PInf = PInf"
| "np_power NInf = Fin 0"
| "np_power NaN = NaN"

definition inv_logscale :: "f64 list \<Rightarrow> f64 \<Rightarrow> f64 list" where
  "inv_logscale data inc = map (\<lambda>x. fsub x inc) (map np_power data)"

section \<open>Splitting the trials\<close>

text \<open>
  A slice \<^verbatim>\<open>a[lo:hi]\<close> with \<open>0 \<le> lo \<le> hi\<close> holds the elements with index \<open>i\<close>,
  \<open>lo \<le> i < hi\<close>, that exist: a slice clips and never raises.
\<close>

definition slice :: "nat \<Rightarrow> nat \<Rightarrow> 'a list \<Rightarrow> 'a list" where
  "slice lo hi xs = take (hi - lo) (drop lo xs)"

record dataset =
  train_input :: ndarray
  train_output :: ndarray
  test_input :: ndarray
  test_output :: ndarray
  validation_input :: ndarray
  validation_output :: ndarray

text \<open>
  \<^verbatim>\<open>create_dataset(data, input_size, device)\<close>: six slices of \<open>data\<close>; the conversion to
  tensors on the device keeps the values. No statement of the function raises on a
  two-dimensional array, so the result is always \<open>Inr\<close>.
\<close>

definition create_dataset :: "ndarray \<Rightarrow> nat \<Rightarrow> error + dataset" where
  "create_dataset data input_size =
     Inr \<lparr>train_input = slice 4 29 data,
          train_output = map (drop input_size) (slice 4 29 data),
          test_input = take 4 data,
          test_output = map (drop input_size) (take 4 data),
          validation_input = drop 29 data,
          validation_output = map (drop input_size) (drop 29 data)\<rparr>"

section \<open>The training and evaluation loop\<close>

text \<open>
  The model and the functions \<^verbatim>\<open>train_model\<close> and \<^verbatim>\<open>test_model\<close> of \<^verbatim>\<open>rnn_model\<close> are
  collaborators: \<open>train_model\<close> maps the model state and the (input, target) pair to the new
  model state, \<open>test_model\<close> returns the new model state and the forecast. Both are taken as
  total functions; every call is recorded in the trace of the run, with the arrays it
  received. \<open>epochs\<close> is the count that \<^verbatim>\<open>set_optimization\<close> returns.
\<close>

datatype nparray = A1 "f64 list" | A2 ndarray

datatype event =
  TrainModel ndarray ndarray
| TestModel ndarray ndarray int
| SaveModel
| PlotResults nparray nparray

record 'm world =
  model :: 'm
  trace :: "event list"

record 'm collaborators =
  train_model :: "'m \<Rightarrow> ndarray \<Rightarrow> ndarray \<Rightarrow> 'm"
  test_model :: "'m \<Rightarrow> ndarray \<Rightarrow> ndarray \<Rightarrow> int \<Rightarrow> 'm \<times> ndarray"
  epochs :: int

definition call_train :: "'m collaborators \<Rightarrow> ndarray \<Rightarrow> ndarray \<Rightarrow> 'm world \<Rightarrow> 'm world" where
  "call_train c inp tgt w =
     \<lparr>model = train_model c (model w) inp tgt, trace = trace w @ [TrainModel inp tgt]\<rparr>"

definition call_test ::
  "'m collaborators \<Rightarrow> ndarray \<Rightarrow> ndarray \<Rightarrow> int \<Rightarrow> 'm world \<Rightarrow> 'm world \<times> ndarray" where
  "call_test c inp tgt future w =
     (let (m', prediction) = test_model c (model w) inp tgt future
      in (\<lparr>model = m', trace = trace w @ [TestModel inp tgt future]\<rparr>, prediction))"

text \<open>
  \<^verbatim>\<open>for epoch in range(epochs)\<close>: the body runs \<open>nat epochs\<close> times, in order; the loop
  variable is only printed. The forecast on the test split is assigned and never read.
\<close>

fun epoch_loop :: "'m collaborators \<Rightarrow> dataset \<Rightarrow> int \<Rightarrow> nat \<Rightarrow> 'm world \<Rightarrow> 'm world" where
  "epoch_loop c d future 0 w = w"
| "epoch_loop c d future (Suc n) w =
     (let w1 = call_train c (train_input d) (train_output d) w;
          (w2, test_predict) = call_test c (test_input d) (test_output d) future w1
      in epoch_loop c d future n w2)"

definition train_and_forecast ::
  "'m collaborators \<Rightarrow> dataset \<Rightarrow> int \<Rightarrow> 'm world \<Rightarrow> 'm world \<times> ndarray" where
  "train_and_forecast c d future w =
     call_test c (validation_input d) (validation_output d) future
       (epoch_loop c d future (nat (epochs c)) w)"

section \<open>Inverse scaling and the plots\<close>

text \<open>
  The device is the one \<^verbatim>\<open>set_device\<close> chooses. The tensors of the data set live on it;
  \<^verbatim>\<open>validation_input.numpy()\<close> raises \<^verbatim>\<open>TypeError\<close> for a tensor on the CUDA device.
\<close>

datatype device = CPU | CUDA

text \<open>\<^verbatim>\<open>reshape(-1,1)\<close> turns a one-dimensional array into one column.\<close>

definition reshape_col :: "f64 list \<Rightarrow> ndarray" where
  "reshape_col xs = map (\<lambda>x. [x]) xs"

definition rescale :: "f64 \<Rightarrow> f64 \<Rightarrow> ndarray \<Rightarrow> ndarray" where
  "rescale a b v = map (map (\<lambda>x. fadd (fmul x (fsub b a)) a)) v"

text \<open>
  The branch \<^verbatim>\<open>args.scaler.lower() == "minmax"\<close> of \<open>main\<close>: the tail of the first validation
  row and the forecast of that row without its last element are plotted as they are, then
  after \<open>v * (b - a) + a\<close> with \<open>a\<close>, \<open>b\<close> the minimum and maximum of the last row of the
  unscaled data. The scaler object that \<open>minmax_scale\<close> returned is not referred to.
  Indexing row 0 of an array without rows raises \<^verbatim>\<open>IndexError\<close>. The result is the list of
  the calls of \<^verbatim>\<open>plot_results\<close> made, and the error if one is raised.
\<close>

definition report_minmax ::
  "device \<Rightarrow> ndarray \<Rightarrow> ndarray \<Rightarrow> ndarray \<Rightarrow> nat \<Rightarrow> event list \<times> error option" where
  "report_minmax dev unscaled_data validation_inp model_output input_size =
     (if dev = CUDA then ([], Some TypeError)
      else if validation_inp = [] then ([], Some IndexError)
      else if model_output = [] then ([], Some IndexError)
      else
        (let inp = reshape_col (drop input_size (hd validation_inp));
             out = reshape_col (butlast (hd model_output));
             scaled_plot = PlotResults (A2 inp) (A2 out)
         in if unscaled_data = [] then ([scaled_plot], Some IndexError)
            else
              (case amin1 (last unscaled_data) of
                 Inl e \<Rightarrow> ([scaled_plot], Some e)
               | Inr a \<Rightarrow>
                   (case amax1 (last unscaled_data) of
                      Inl e \<Rightarrow> ([scaled_plot], Some e)
                    | Inr b \<Rightarrow>
                        ([scaled_plot,
                          PlotResults (A2 (rescale a b inp)) (A2 (rescale a b out))], None)))))"

text \<open>The branch \<^verbatim>\<open>args.scaler.lower() == "log"\<close>: one plot, of the inverted values.\<close>

definition report_log ::
  "device \<Rightarrow> f64 \<Rightarrow> ndarray \<Rightarrow> ndarray \<Rightarrow> nat \<Rightarrow> event list \<times> error option" where
  "report_log dev inc validation_inp model_output input_size =
     (if dev = CUDA then ([], Some TypeError)
      else if validation_inp = [] then ([], Some IndexError)
      else if model_output = [] then ([], Some IndexError)
      else
        (let input_inverted = inv_logscale (drop input_size (hd validation_inp)) inc;
             output_inverted = inv_logscale (hd model_output) inc
         in ([PlotResults (A1 input_inverted) (A1 output_inverted)], None)))"

section \<open>The driver\<close>

text \<open>
  \<open>main\<close>, after the arguments have passed \<^verbatim>\<open>pass_legal_args\<close> (which admits the scalers
  \<^verbatim>\<open>'minmax'\<close> and \<^verbatim>\<open>'log'\<close> only) and the channel data have been loaded. The unscaled
  data are a new array (\<^verbatim>\<open>astype\<close> copies); the scaler receives a reference to it. The
  result is the list of the calls made to the collaborators (training step, forecast,
  saving, plotting), in order, and the error that ended the run, if any.
\<close>

datatype scaler_kind = Minmax | Log

record args =
  save :: bool
  future :: int
  scaler :: scaler_kind

datatype scaler_state = MinMaxState MinMaxScaler | LogState f64

definition input_size :: nat where
  "input_size = 5"

definition scale_data ::
  "scaler_kind \<Rightarrow> store \<Rightarrow> ref \<Rightarrow> store \<times> (error + ref \<times> scaler_state)" where
  "scale_data k s unscaled_data =
     (case k of
        Log \<Rightarrow>
          (case log_scale s unscaled_data of
             (s', Inl e) \<Rightarrow> (s', Inl e)
           | (s', Inr (data, inc)) \<Rightarrow> (s', Inr (data, LogState inc)))
      | Minmax \<Rightarrow>
          (case minmax_scale s unscaled_data of
             (s', Inl e) \<Rightarrow> (s', Inl e)
           | (s', Inr (data, sc)) \<Rightarrow> (s', Inr (data, MinMaxState sc))))"

definition report ::
  "scaler_state \<Rightarrow> device \<Rightarrow> ndarray \<Rightarrow> ndarray \<Rightarrow> ndarray \<Rightarrow> event list \<times> error option" where
  "report st dev unscaled validation_inp model_output =
     (case st of
        MinMaxState sc \<Rightarrow> report_minmax dev unscaled validation_inp model_output input_size
      | LogState inc \<Rightarrow> report_log dev inc validation_inp model_output input_size)"

definition main ::
  "args \<Rightarrow> ndarray \<Rightarrow> 'm collaborators \<Rightarrow> 'm \<Rightarrow> device \<Rightarrow> event list \<times> error option" where
  "main a channel_data c temporal_model dev =
     (let (s0, unscaled_data) = alloc [] (np_transpose channel_data)
      in case scale_data (scaler a) s0 unscaled_data of
           (s1, Inl e) \<Rightarrow> ([], Some e)
         | (s1, Inr (data, st)) \<Rightarrow>
             (case create_dataset (s1 ! data) input_size of
                Inl e \<Rightarrow> ([], Some e)
              | Inr d \<Rightarrow>
                  (let (w, model_output) =
                         train_and_forecast c d (future a) \<lparr>model = temporal_model, trace = []\<rparr>;
                       saved = (if save a then [SaveModel] else []);
                       (plots, err) = report st dev (s1 ! unscaled_data) (validation_input d)
                                        model_output
                   in (trace w @ saved @ plots, err))))"

section \<open>Notions used in the statements\<close>

text \<open>The events that are calls of the training step.\<close>

definition is_train :: "event \<Rightarrow> bool" where
  "is_train e = (case e of TrainModel inp tgt \<Rightarrow> True | _ \<Rightarrow> False)"

text \<open>The calls of one epoch, and the model state after one epoch.\<close>

definition epoch_events :: "dataset \<Rightarrow> int \<Rightarrow> event list" where
  "epoch_events d fut =
     [TrainModel (train_input d) (train_output d), TestModel (test_input d) (test_output d) fut]"

definition epoch_model :: "'m collaborators \<Rightarrow> dataset \<Rightarrow> int \<Rightarrow> 'm \<Rightarrow> 'm" where
  "epoch_model c d fut m =
     fst (test_model c (train_model c m (train_input d) (train_output d))
            (test_input d) (test_output d) fut)"

text \<open>The array that the reference returned by a scaler denotes.\<close>

definition scaled_array :: "store \<times> (error + ref \<times> 'a) \<Rightarrow> error + ndarray" where
  "scaled_array res = (case snd res of Inl e \<Rightarrow> Inl e | Inr (r, st) \<Rightarrow> Inr (fst res ! r))"

text \<open>An element that is finite and strictly positive, or plus infinity.\<close>

fun fpos :: "f64 \<Rightarrow> bool" where
  "fpos (Fin x) = (0 < x)"
| "fpos PInf = True"
| "fpos NInf = False"
| "fpos NaN = False"

text \<open>
  The attributes that the library's scaler fits for one row of finite values, every
  operation rounded as the library computes it: the range \<open>max - min\<close>, the scale
  \<open>(1 - 0) / range\<close> (with a range below ten machine epsilons replaced by 1), the offset
  \<open>0 - min * scale\<close>; the image \<open>x * scale + offset\<close> of an element of the row; and the
  scaler object of a matrix with these rows.
\<close>

definition row_range :: "real list \<Rightarrow> f64" where
  "row_range row = fsub (Fin (Max (set row))) (Fin (Min (set row)))"

definition row_scale :: "real list \<Rightarrow> f64" where
  "row_scale row = fdiv (fsub (Fin 1) (Fin 0)) (handle_zeros_in_scale (row_range row))"

definition row_offset :: "real list \<Rightarrow> f64" where
  "row_offset row = fsub (Fin 0) (fmul (Fin (Min (set row))) (row_scale row))"

definition row_minmax :: "real list \<Rightarrow> real \<Rightarrow> f64" where
  "row_minmax row x = fadd (fmul (Fin x) (row_scale row)) (row_offset row)"

definition row_scaler :: "real list list \<Rightarrow> MinMaxScaler" where
  "row_scaler R =
     \<lparr>data_min = map (\<lambda>row. Fin (Min (set row))) R,
      data_max = map (\<lambda>row. Fin (Max (set row))) R,
      data_range = map row_range R,
      sk_scale = map row_scale R,
      sk_min = map row_offset R\<rparr>"

text \<open>
  The min-max scaling in the words of the specification, not of the code: every element is
  normalised with the minimum and maximum of its column, taken over all rows.
\<close>

definition column_minmax :: "real list list \<Rightarrow> real list list" where
  "column_minmax R =
     map (\<lambda>row. map (\<lambda>(x, col). (x - Min (set col)) / (Max (set col) - Min (set col)))
                  (zip row (np_transpose R))) R"


text \<open>
  The MinMax branch of the report in the words of the specification, not of the code: the
  values are first inverted with the retained scaler state (of the trial they belong to) and
  then rescaled with the minimum and maximum of the last unscaled row.
\<close>

definition spec_report_minmax ::
  "MinMaxScaler \<Rightarrow> nat \<Rightarrow> device \<Rightarrow> ndarray \<Rightarrow> ndarray \<Rightarrow> ndarray \<Rightarrow> nat \<Rightarrow>
   event list \<times> error option" where
  "spec_report_minmax sc trial dev unscaled validation_inp model_output k =
     (if dev = CUDA then ([], Some TypeError)
      else if validation_inp = [] then ([], Some IndexError)
      else if model_output = [] then ([], Some IndexError)
      else
        (let invert = map (\<lambda>x. fdiv (fsub x (sk_min sc ! trial)) (sk_scale sc ! trial));
             inp = drop k (hd validation_inp);
             out = butlast (hd model_output);
             scaled_plot = PlotResults (A2 (reshape_col inp)) (A2 (reshape_col out))
         in if unscaled = [] then ([scaled_plot], Some IndexError)
            else
              (case amin1 (last unscaled) of
                 Inl e \<Rightarrow> ([scaled_plot], Some e)
               | Inr a \<Rightarrow>
                   (case amax1 (last unscaled) of
                      Inl e \<Rightarrow> ([scaled_plot], Some e)
                    | Inr b \<Rightarrow>
                        ([scaled_plot,
                          PlotResults (A2 (rescale a b (reshape_col (invert inp))))
                            (A2 (rescale a b (reshape_col (invert out))))], None)))))"

text \<open>
  Three float64 values: the ones nearest to \<open>1/10\<close> and to \<open>1/5\<close>, and the rounded product
  of 6 and the latter (\<open>1.2000000000000002\<close>).
\<close>

definition tenth :: real where
  "tenth = 3602879701896397 / 2 ^ 55"



text \<open>
  Example data: thirty trials of seven samples, trial 29 with the range \<open>[0,4]\<close>; the trials
  after the shift by 1; the scaled trials, the fitted scaler and the split of the scaled
  trials; a forecast of one row; collaborators that leave the model unchanged and always
  return that forecast; the calls of a run with one epoch.
\<close>

definition example_trials :: "real list list" where
  "example_trials = replicate 29 [0, 0, 0, 0, 0, 0, 1] @ [[0, 0, 0, 0, 0, 2, 4]]"

definition example_shifted :: "real list list" where
  "example_shifted = replicate 29 [1, 1, 1, 1, 1, 1, 2] @ [[1, 1, 1, 1, 1, 3, 5]]"

definition example_scaled :: ndarray where
  "example_scaled =
     replicate 29 [Fin 0, Fin 0, Fin 0, Fin 0, Fin 0, Fin 0, Fin 1] @
     [[Fin 0, Fin 0, Fin 0, Fin 0, Fin 0, Fin (1 / 2), Fin 1]]"

definition example_scaler :: MinMaxScaler where
  "example_scaler =
     \<lparr>data_min = replicate 29 (Fin 0) @ [Fin 0],
      data_max = replicate 29 (Fin 1) @ [Fin 4],
      data_range = replicate 29 (Fin 1) @ [Fin 4],
      sk_scale = replicate 29 (Fin 1) @ [Fin (1 / 4)],
      sk_min = replicate 29 (Fin 0) @ [Fin 0]\<rparr>"

definition example_dataset :: dataset where
  "example_dataset =
     \<lparr>train_input = replicate 25 [Fin 0, Fin 0, Fin 0, Fin 0, Fin 0, Fin 0, Fin 1],
      train_output = replicate 25 [Fin 0, Fin 1],
      test_input = replicate 4 [Fin 0, Fin 0, Fin 0, Fin 0, Fin 0, Fin 0, Fin 1],
      test_output = replicate 4 [Fin 0, Fin 1],
      validation_input = [[Fin 0, Fin 0, Fin 0, Fin 0, Fin 0, Fin (1 / 2), Fin 1]],
      validation_output = [[Fin (1 / 2), Fin 1]]\<rparr>"

definition example_forecast :: ndarray where
  "example_forecast = [[Fin (1 / 2), Fin 1, Fin 0]]"

definition example_collaborators :: "unit collaborators" where
  "example_collaborators =
     \<lparr>train_model = (\<lambda>m inp tgt. m),
      test_model = (\<lambda>m inp tgt fut. (m, [[Fin (1 / 2), Fin 1, Fin 0]])),
      epochs = 1\<rparr>"

definition example_calls :: "event list" where
  "example_calls =
     [TrainModel (train_input example_dataset) (train_output example_dataset),
      TestModel (test_input example_dataset) (test_output example_dataset) 1,
      TestModel (validation_input example_dataset) (validation_output example_dataset) 1]"

section \<open>Properties of the split\<close>







text \<open>
  Claim C6, as stated, fails: for a matrix of one row and two columns (fewer than 30 rows and
  fewer than \<open>lookback + 1 = 6\<close> columns) the split returns a result, with clipped slices.
\<close>

theorem create_dataset_short_counterexample:
  "create_dataset [[Fin 1, Fin 2]] 5 =
     Inr \<lparr>train_input = [], train_output = [], test_input = [[Fin 1, Fin 2]],
          test_output = [[]], validation_input = [], validation_output = []\<rparr>"
  by (simp add: create_dataset_def slice_def)

text \<open>
  Claim C6, amended. The split never fails: it returns a result for every matrix and every
  lookback; with fewer than 30 rows the validation range is empty, and where no row has
  \<open>lookback + 1\<close> columns the three targets have no elements.
\<close>

theorem create_dataset_never_fails:
  "\<exists>d. create_dataset data k = Inr d \<and>
     (length data < 30 \<longrightarrow> validation_input d = [] \<and> validation_output d = []) \<and>
     ((\<forall>row \<in> set data. length row < k + 1) \<longrightarrow>
        concat (train_output d) = [] \<and> concat (test_output d) = [] \<and>
        concat (validation_output d) = [])"
proof -
  have "\<And>rows. (\<forall>row \<in> set data. length row < k + 1) \<Longrightarrow> set rows \<subseteq> set data \<Longrightarrow>
      concat (map (drop k) rows) = []"
    by (fastforce simp: less_Suc_eq_le)
  then have "(\<forall>row \<in> set data. length row < k + 1) \<Longrightarrow>
      concat (map (drop k) (slice 4 29 data)) = [] \<and> concat (map (drop k) (take 4 data)) = [] \<and>
      concat (map (drop k) (drop 29 data)) = []"
    by (metis set_take_subset set_drop_subset slice_def subset_trans)
  then show ?thesis
    by (simp add: create_dataset_def)
qed

theorem create_dataset_never_fails_witness:
  "length [[Fin 1, Fin 2], [Fin 3, Fin 4]] < 30 \<and>
   length [Fin 1, Fin 2] < 5 + 1 \<and> length [Fin 3, Fin 4] < 5 + 1 \<and>
   (\<exists>d. create_dataset [[Fin 1, Fin 2], [Fin 3, Fin 4]] 5 = Inr d \<and>
      validation_input d = [] \<and> concat (test_output d) = [])"
  using create_dataset_never_fails [of "[[Fin 1, Fin 2], [Fin 3, Fin 4]]" 5]
  by auto

section \<open>Properties of the training and evaluation loop\<close>

lemma epoch_loop_trace:
  "trace (epoch_loop c d fut n w) = trace w @ concat (replicate n (epoch_events d fut))"
  by (induction n arbitrary: w)
    (simp_all add: call_train_def call_test_def epoch_events_def Let_def split: prod.splits)

lemma epoch_loop_model:
  "model (epoch_loop c d fut n w) = (epoch_model c d fut ^^ n) (model w)"
  by (induction n arbitrary: w)
    (simp_all add: call_train_def call_test_def epoch_model_def Let_def funpow_swap1
       split: prod.splits)

lemma filter_train_epochs:
  "filter is_train (concat (replicate n (epoch_events d fut))) =
     replicate n (TrainModel (train_input d) (train_output d))"
  by (induction n) (simp_all add: epoch_events_def is_train_def)

text \<open>
  Claim C4. For every epoch count \<open>n\<close> (a positive one in particular), the calls made by the
  loop are \<open>n\<close> times a training step on the train split followed by a forecast on the test
  split, then one forecast on the validation split. So the training step is called exactly
  once per epoch and only with the input and target of the train split, the test and
  validation splits reach only the forecast, and the value returned is the forecast made on
  the validation split by the model as it is after all epochs.
\<close>

theorem training_loop_calls:
  "trace (fst (train_and_forecast c d fut \<lparr>model = m0, trace = []\<rparr>)) =
     concat (replicate (nat (epochs c))
       [TrainModel (train_input d) (train_output d),
        TestModel (test_input d) (test_output d) fut])
     @ [TestModel (validation_input d) (validation_output d) fut] \<and>
   filter is_train (trace (fst (train_and_forecast c d fut \<lparr>model = m0, trace = []\<rparr>))) =
     replicate (nat (epochs c)) (TrainModel (train_input d) (train_output d)) \<and>
   snd (train_and_forecast c d fut \<lparr>model = m0, trace = []\<rparr>) =
     snd (test_model c ((epoch_model c d fut ^^ nat (epochs c)) m0)
            (validation_input d) (validation_output d) fut)"
proof -
  let ?w = "epoch_loop c d fut (nat (epochs c)) \<lparr>model = m0, trace = []\<rparr>"
  have t: "trace ?w = concat (replicate (nat (epochs c)) (epoch_events d fut))"
    by (simp add: epoch_loop_trace)
  have m: "model ?w = (epoch_model c d fut ^^ nat (epochs c)) m0"
    by (simp add: epoch_loop_model)
  have tf: "train_and_forecast c d fut \<lparr>model = m0, trace = []\<rparr> =
      (\<lparr>model = fst (test_model c (model ?w) (validation_input d) (validation_output d) fut),
        trace = trace ?w @ [TestModel (validation_input d) (validation_output d) fut]\<rparr>,
       snd (test_model c (model ?w) (validation_input d) (validation_output d) fut))"
    by (simp add: train_and_forecast_def call_test_def split: prod.splits)
  show ?thesis
    unfolding tf
    by (simp add: t m filter_train_epochs is_train_def) (simp add: epoch_events_def)
qed

section \<open>Facts about rounding\<close>

lemma pow2_int: "0 \<le> k \<Longrightarrow> (2::real) powr of_int k = 2 ^ nat k"
  by (simp add: powr_real_of_int)

lemma ilog2_floor_log: "ilog2 x = \<lfloor>log 2 \<bar>x\<bar>\<rfloor>"
proof (cases "x = 0")
  case True
  then show ?thesis by (simp add: ilog2_def log_def)
next
  case nz: False
  then have pos: "0 < \<bar>x\<bar>" by simp
  show ?thesis
  proof (cases "1 \<le> \<bar>x\<bar>")
    case True
    define n where "n = \<lfloor>\<bar>x\<bar>\<rfloor>"
    have n: "0 < n" "of_int n \<le> \<bar>x\<bar>" "\<bar>x\<bar> < of_int n + 1"
      unfolding n_def using True by linarith+
    define k where "k = bitlen n - 1"
    from bitlen_bounds [OF n(1)] have b: "2 ^ nat k \<le> n" "n < 2 ^ nat (k + 1)"
      by (simp_all add: k_def)
    have "bitlen n \<noteq> 0"
      using n(1) by (simp add: bitlen_eq_zero_iff)
    with bitlen_nonneg [of n] have k0: "0 \<le> k"
      unfolding k_def by linarith
    have lo: "(2::real) powr of_int k \<le> \<bar>x\<bar>"
    proof -
      have "(2::real) ^ nat k \<le> of_int n"
        using b(1) by (metis of_int_le_iff of_int_numeral of_int_power)
      with n(2) show ?thesis unfolding pow2_int [OF k0] by linarith
    qed
    have hi: "\<bar>x\<bar> < (2::real) powr of_int (k + 1)"
    proof -
      from b(2) have "n + 1 \<le> 2 ^ nat (k + 1)" by simp
      then have "of_int (n + 1) \<le> (2::real) ^ nat (k + 1)"
        by (metis of_int_le_iff of_int_numeral of_int_power)
      moreover have "0 \<le> k + 1" using k0 by simp
      ultimately show ?thesis using n(3) unfolding pow2_int [OF \<open>0 \<le> k + 1\<close>] by simp
    qed
    have "\<lfloor>log 2 \<bar>x\<bar>\<rfloor> = k"
      using lo hi pos by (simp add: floor_log_eq_powr_iff)
    then show ?thesis
      using nz True by (simp add: ilog2_def k_def n_def)
  next
    case False
    then have small: "\<bar>x\<bar> < 1" by simp
    define y where "y = 1 / \<bar>x\<bar>"
    have y1: "1 < y" using small pos by (simp add: y_def)
    have xy: "\<bar>x\<bar> = 1 / y" using pos by (simp add: y_def)
    define m where "m = \<lceil>y\<rceil>"
    have m: "of_int m - 1 < y" "y \<le> of_int m" "2 \<le> m"
      unfolding m_def using y1 by linarith+
    define c where "c = bitlen (m - 1)"
    have m1: "0 < m - 1" using m(3) by simp
    from bitlen_bounds [OF m1] have b: "2 ^ nat (c - 1) \<le> m - 1" "m - 1 < 2 ^ nat c"
      by (simp_all add: c_def)
    have "bitlen (m - 1) \<noteq> 0"
      using m1 by (simp add: bitlen_eq_zero_iff)
    with bitlen_nonneg [of "m - 1"] have c1: "1 \<le> c"
      unfolding c_def by linarith
    have ylo: "(2::real) ^ nat (c - 1) < y"
    proof -
      have "(2::real) ^ nat (c - 1) \<le> of_int (m - 1)"
        using b(1) by (metis of_int_le_iff of_int_numeral of_int_power)
      with m(1) show ?thesis by linarith
    qed
    have yhi: "y \<le> (2::real) ^ nat c"
    proof -
      from b(2) have "m \<le> 2 ^ nat c" by simp
      then have "of_int m \<le> (2::real) ^ nat c"
        by (metis of_int_le_iff of_int_numeral of_int_power)
      with m(2) show ?thesis by linarith
    qed
    have ypos: "0 < y" using y1 by simp
    have lo: "(2::real) powr of_int (- c) \<le> \<bar>x\<bar>"
    proof -
      have "(2::real) powr of_int (- c) = 1 / 2 ^ nat c"
        using c1 by (simp add: powr_minus_divide pow2_int)
      also have "\<dots> \<le> 1 / y"
        using yhi ypos by (simp add: frac_le)
      finally show ?thesis by (simp add: xy)
    qed
    have hi: "\<bar>x\<bar> < (2::real) powr of_int (- c + 1)"
    proof -
      have "1 / y < 1 / (2::real) ^ nat (c - 1)"
        using ylo by (simp add: frac_less2)
      also have "\<dots> = 2 powr of_int (- (c - 1))"
      proof -
        have "0 \<le> c - 1" using c1 by simp
        then have "(2::real) powr of_int (c - 1) = 2 ^ nat (c - 1)"
          by (rule pow2_int)
        moreover have "(2::real) powr of_int (- (c - 1)) = 1 / 2 powr of_int (c - 1)"
          by (simp only: of_int_minus powr_minus_divide)
        ultimately show ?thesis by (simp only:)
      qed
      finally show ?thesis by (simp add: xy)
    qed
    have "\<lfloor>log 2 \<bar>x\<bar>\<rfloor> = - c"
      using lo hi pos by (simp add: floor_log_eq_powr_iff)
    then show ?thesis
      using nz False by (simp add: ilog2_def c_def m_def y_def)
  qed
qed

lemma expo_log: "expo x = max \<lfloor>log 2 \<bar>x\<bar>\<rfloor> (- 1022)"
  by (simp add: expo_def ilog2_floor_log)

lemma ulp_powr: "ulp x = 2 powr (of_int (expo x) - 52)"
proof -
  have "(2::real) powr of_int (expo x - 52) = 2 powi (expo x - 52)"
    by (rule powr_real_of_int') simp_all
  then show ?thesis
    by (simp add: ulp_def)
qed

lemma round_even_of_int [simp]: "round_even (of_int n) = n"
  by (simp add: round_even_def)

lemma round_even_floor: "\<lfloor>q\<rfloor> \<le> round_even q" and round_even_floor1: "round_even q \<le> \<lfloor>q\<rfloor> + 1"
  by (simp_all add: round_even_def Let_def)

lemma round_even_ge:
  assumes "of_int k \<le> q"
  shows "k \<le> round_even q"
proof -
  from assms have "k \<le> \<lfloor>q\<rfloor>" by (simp add: le_floor_iff)
  with round_even_floor [of q] show ?thesis by simp
qed

lemma round_even_le:
  assumes "q \<le> of_int k"
  shows "round_even q \<le> k"
proof (cases "q = of_int k")
  case True
  then show ?thesis by simp
next
  case False
  with assms have "q < of_int k" by simp
  then have "\<lfloor>q\<rfloor> < k" by (simp add: floor_less_iff)
  with round_even_floor1 [of q] show ?thesis by simp
qed

lemma round_even_minus: "round_even (- q) = - round_even q"
proof (cases "q = of_int \<lfloor>q\<rfloor>")
  case True
  then obtain n where n: "q = of_int n" ..
  have "round_even (of_int (- n)) = - round_even (of_int n)"
    by (simp only: round_even_of_int)
  then show ?thesis by (simp add: n)
next
  case False
  then have f: "\<lfloor>- q\<rfloor> = - \<lfloor>q\<rfloor> - 1"
    by (metis ceiling_altdef ceiling_def add_diff_cancel_right' minus_diff_eq uminus_add_conv_diff minus_minus)
  have r: "0 < q - of_int \<lfloor>q\<rfloor>" "q - of_int \<lfloor>q\<rfloor> < 1"
    using False floor_correct [of q] by linarith+
  show ?thesis
    unfolding round_even_def Let_def f using r
    by (auto simp: field_simps)
qed

lemma expo_minus [simp]: "expo (- x) = expo x"
  by (simp add: expo_log)

lemma expo_ge: "- 1022 \<le> expo x"
  by (simp add: expo_log)

lemma expo_upper:
  assumes "x \<noteq> 0"
  shows "\<bar>x\<bar> < 2 powr (of_int (expo x) + 1)"
proof -
  have "log 2 \<bar>x\<bar> < of_int \<lfloor>log 2 \<bar>x\<bar>\<rfloor> + 1" by linarith
  also have "\<dots> \<le> of_int (expo x) + 1" by (simp add: expo_log)
  finally show ?thesis
    using assms by (simp add: log_less_iff)
qed

lemma expo_lower:
  assumes "x \<noteq> 0" and "- 1022 < expo x"
  shows "2 powr of_int (expo x) \<le> \<bar>x\<bar>"
proof -
  from assms(2) have "expo x = \<lfloor>log 2 \<bar>x\<bar>\<rfloor>"
    by (simp add: expo_log max_def split: if_splits)
  then have "of_int (expo x) \<le> log 2 \<bar>x\<bar>" by simp
  then show ?thesis
    using assms(1) by (simp add: le_log_iff)
qed

lemma expo_eqI:
  assumes "2 powr of_int e \<le> \<bar>x\<bar>" and "\<bar>x\<bar> < 2 powr (of_int e + 1)" and "- 1022 \<le> e"
  shows "expo x = e"
proof -
  have "0 < \<bar>x\<bar>"
    using assms(1) by (smt (verit) powr_gt_zero)
  then have "\<lfloor>log 2 \<bar>x\<bar>\<rfloor> = e"
    using assms(1,2) by (simp add: floor_log_eq_powr_iff)
  with assms(3) show ?thesis by (simp add: expo_log)
qed

lemma expo_mono:
  assumes "0 < a" and "a \<le> b"
  shows "expo a \<le> expo b"
proof -
  have "log 2 \<bar>a\<bar> \<le> log 2 \<bar>b\<bar>" using assms by simp
  then have "\<lfloor>log 2 \<bar>a\<bar>\<rfloor> \<le> \<lfloor>log 2 \<bar>b\<bar>\<rfloor>" by (rule floor_mono)
  then show ?thesis by (simp add: expo_log)
qed

lemma ulp_pos [simp]: "0 < ulp x"
  by (simp add: ulp_powr)

lemma ulp_nonneg [simp]: "0 \<le> ulp x"
  by (simp add: ulp_powr)

lemma ulp_abs [simp]: "\<bar>ulp x\<bar> = ulp x"
  by (simp add: abs_of_pos)

lemma ulp_minus [simp]: "ulp (- x) = ulp x"
  by (simp add: ulp_powr)

lemma ulp_times: "2 ^ 52 * ulp x = 2 powr of_int (expo x)" and ulp_times1: "2 ^ 53 * ulp x = 2 powr (of_int (expo x) + 1)"
proof -
  have "(2::real) ^ 52 = 2 powr 52" "(2::real) ^ 53 = 2 powr 53" by simp_all
  then show "2 ^ 52 * ulp x = 2 powr of_int (expo x)" "2 ^ 53 * ulp x = 2 powr (of_int (expo x) + 1)"
    unfolding ulp_powr by (simp_all only: powr_add [symmetric]) (simp_all add: add.commute)
qed

lemma quot_upper:
  assumes "x \<noteq> 0"
  shows "\<bar>x / ulp x\<bar> < 2 ^ 53"
proof -
  have "\<bar>x\<bar> < 2 ^ 53 * ulp x"
    using expo_upper [OF assms] by (simp only: ulp_times1)
  moreover have "\<bar>x / ulp x\<bar> = \<bar>x\<bar> / ulp x"
    by simp
  ultimately show ?thesis
    by (simp only: pos_divide_less_eq [OF ulp_pos])
qed

lemma quot_lower:
  assumes "x \<noteq> 0" and "- 1022 < expo x"
  shows "2 ^ 52 \<le> \<bar>x / ulp x\<bar>"
proof -
  have "2 ^ 52 * ulp x \<le> \<bar>x\<bar>"
    using expo_lower [OF assms] by (simp only: ulp_times)
  moreover have "\<bar>x / ulp x\<bar> = \<bar>x\<bar> / ulp x"
    by simp
  ultimately show ?thesis
    by (simp only: pos_le_divide_eq [OF ulp_pos])
qed

lemma rnd_0 [simp]: "rnd 0 = Fin 0"
  by (simp add: rnd_def)

lemma rnd_not_NaN [simp]: "rnd x \<noteq> NaN"
  by (simp add: rnd_def Let_def)

lemma rnd_minus: "rnd (- x) = fneg (rnd x)"
  by (simp add: rnd_def Let_def round_even_minus)

lemma rnd_Fin_iff:
  assumes "x \<noteq> 0"
  shows "rnd x = Fin y \<longleftrightarrow>
    y = of_int (round_even (x / ulp x)) * ulp x \<and> \<bar>y\<bar> < huge"
  using assms by (auto simp: rnd_def Let_def)

lemma rnd_integral:
  assumes "x = of_int m * ulp x" and "\<bar>x\<bar> < huge"
  shows "rnd x = Fin x"
proof (cases "x = 0")
  case True
  then show ?thesis by simp
next
  case False
  from assms(1) have "x / ulp x = of_int m"
    by (metis nonzero_mult_div_cancel_right ulp_pos less_irrefl)
  with assms show ?thesis
    by (simp add: rnd_Fin_iff [OF False])
qed

lemma powr_int_diff:
  assumes "j \<le> k"
  shows "(2::real) powr of_int k = of_int (2 ^ nat (k - j)) * 2 powr of_int j"
proof -
  have "(2::real) powr of_int k = 2 powr (of_int (k - j) + of_int j)" by simp
  also have "\<dots> = 2 powr of_int (k - j) * 2 powr of_int j"
    by (simp only: powr_add)
  also have "(2::real) powr of_int (k - j) = 2 powr real (nat (k - j))"
    using assms by simp
  also have "\<dots> = 2 ^ nat (k - j)"
    by (simp only: powr_realpow zero_less_numeral)
  finally show ?thesis by simp
qed

lemma huge_gt: "(2::real) ^ 53 < huge" "(2::real) ^ 54 < huge" "0 < huge"
  by (simp_all add: huge_def)

lemma ulp_double: "2 powr of_int (expo x - 52 + 1) = 2 * ulp x"
  and ulp_quadruple: "2 powr of_int (expo x - 52 + 2) = 4 * ulp x"
proof -
  have "(2::real) powr of_int (expo x - 52 + 1) = 2 powr (of_int (expo x) - 52) * 2 powr 1"
    by (simp only: powr_add [symmetric]) simp
  then show "2 powr of_int (expo x - 52 + 1) = 2 * ulp x"
    by (simp add: ulp_powr)
  have "(2::real) powr of_int (expo x - 52 + 2) = 2 powr (of_int (expo x) - 52) * 2 powr 2"
    by (simp only: powr_add [symmetric]) simp
  then show "2 powr of_int (expo x - 52 + 2) = 4 * ulp x"
    by (simp add: ulp_powr)
qed

lemma rnd_exact:
  assumes "x = of_int n * 2 powr of_int k" and "\<bar>n\<bar> < 2 ^ 53" and "- 1074 \<le> k"
    and "\<bar>x\<bar> < huge"
  shows "rnd x = Fin x"
proof (cases "x = 0")
  case True
  then show ?thesis by simp
next
  case False
  have "\<bar>x\<bar> = of_int \<bar>n\<bar> * 2 powr of_int k"
    by (simp add: assms(1) abs_mult)
  also have "\<dots> < 2 ^ 53 * 2 powr of_int k"
  proof -
    have "(of_int \<bar>n\<bar> :: real) < of_int (2 ^ 53)"
      using assms(2) by (simp only: of_int_less_iff)
    then show ?thesis by simp
  qed
  also have "\<dots> = 2 powr (of_int k + 53)"
    by (simp add: powr_add)
  finally have "log 2 \<bar>x\<bar> < of_int k + 53"
    using False by (simp add: log_less_iff)
  then have "\<lfloor>log 2 \<bar>x\<bar>\<rfloor> < k + 53"
    by (simp add: floor_less_iff)
  with assms(3) have "expo x - 52 \<le> k"
    by (simp add: expo_log)
  from powr_int_diff [OF this]
  have "x = of_int (n * 2 ^ nat (k - (expo x - 52))) * ulp x"
    by (simp add: assms(1) ulp_powr)
  then show ?thesis
    using assms(4) by (rule rnd_integral)
qed

lemma rnd_of_int:
  assumes "\<bar>n\<bar> < 2 ^ 53"
  shows "rnd (of_int n) = Fin (of_int n)"
proof (rule rnd_exact [where n = n and k = 0])
  show "real_of_int n = of_int n * 2 powr of_int 0" by simp
  show "\<bar>n\<bar> < 2 ^ 53" by (rule assms)
  show "- 1074 \<le> (0::int)" by simp
  have "\<bar>real_of_int n\<bar> < 2 ^ 53"
    using assms by (metis of_int_abs of_int_less_iff of_int_numeral of_int_power)
  also have "(2::real) ^ 53 < huge" by (rule huge_gt)
  finally show "\<bar>real_of_int n\<bar> < huge" .
qed

lemma rnd_quot_bound:
  assumes "x \<noteq> 0"
  shows "\<bar>round_even (x / ulp x)\<bar> \<le> 2 ^ 53"
proof -
  from quot_upper [OF assms]
  have "x / ulp x \<le> 2 ^ 53" "- (2 ^ 53) \<le> x / ulp x"
    by linarith+
  then have "x / ulp x \<le> of_int (2 ^ 53)" "of_int (- (2 ^ 53)) \<le> x / ulp x"
    by simp_all
  then have "round_even (x / ulp x) \<le> 2 ^ 53" "- (2 ^ 53) \<le> round_even (x / ulp x)"
    by (simp_all only: round_even_le round_even_ge)
  then show ?thesis by simp
qed

lemma rnd_range:
  assumes "rnd x = Fin y"
  shows "rnd y = Fin y"
proof (cases "x = 0")
  case True
  with assms show ?thesis by simp
next
  case False
  define n where "n = round_even (x / ulp x)"
  from assms rnd_Fin_iff [OF False, of y] have "y = of_int n * ulp x \<and> \<bar>y\<bar> < huge"
    unfolding n_def by blast
  then have y: "y = of_int n * ulp x" and b: "\<bar>y\<bar> < huge"
    by blast+
  have k: "- 1074 \<le> expo x - 52"
    using expo_ge [of x] by simp
  have u: "ulp x = 2 powr of_int (expo x - 52)"
    by (simp add: ulp_powr)
  have nb: "\<bar>n\<bar> \<le> 2 ^ 53"
    unfolding n_def using False by (rule rnd_quot_bound)
  show ?thesis
  proof (cases "\<bar>n\<bar> < 2 ^ 53")
    case True
    show ?thesis
      by (rule rnd_exact [OF _ True k b]) (simp add: y u)
  next
    case False
    with nb have "\<bar>n\<bar> = 2 ^ 53" by simp
    then consider "n = 2 ^ 53" | "n = - (2 ^ 53)" by linarith
    then obtain h :: int where h: "n = 2 * h" "\<bar>h\<bar> < 2 ^ 53"
    proof cases
      case 1
      then have "n = 2 * 2 ^ 52" "\<bar>2 ^ 52 :: int\<bar> < 2 ^ 53" by simp_all
      then show ?thesis by (rule that)
    next
      case 2
      then have "n = 2 * (- (2 ^ 52))" "\<bar>- (2 ^ 52) :: int\<bar> < 2 ^ 53" by simp_all
      then show ?thesis by (rule that)
    qed
    have "of_int n * ulp x = of_int h * (2 * ulp x)" by (simp add: h(1))
    then have "y = of_int h * 2 powr of_int (expo x - 52 + 1)"
      by (simp only: ulp_double y)
    moreover have "- 1074 \<le> expo x - 52 + 1" using k by simp
    ultimately show ?thesis
      using h(2) b by (intro rnd_exact [where n = h and k = "expo x - 52 + 1"])
  qed
qed

lemma rnd_double:
  assumes "rnd m = Fin m" and "\<bar>2 * m\<bar> < huge"
  shows "rnd (2 * m) = Fin (2 * m)"
proof (cases "m = 0")
  case True
  then show ?thesis by simp
next
  case False
  define n where "n = round_even (m / ulp m)"
  from assms(1) rnd_Fin_iff [OF False, of m] have "m = of_int n * ulp m \<and> \<bar>m\<bar> < huge"
    unfolding n_def by blast
  then have y: "of_int n * ulp m = m" by simp
  have nb: "\<bar>n\<bar> \<le> 2 ^ 53"
    unfolding n_def using False by (rule rnd_quot_bound)
  have u: "ulp m = 2 powr of_int (expo m - 52)"
    by (simp add: ulp_powr)
  have k: "- 1074 \<le> expo m - 52"
    using expo_ge [of m] by simp
  show ?thesis
  proof (cases "\<bar>n\<bar> < 2 ^ 53")
    case True
    have "of_int n * (2 * ulp m) = 2 * (of_int n * ulp m)" by simp
    then have "2 * m = of_int n * 2 powr of_int (expo m - 52 + 1)"
      by (simp only: ulp_double y)
    moreover have "- 1074 \<le> expo m - 52 + 1" using k by simp
    ultimately show ?thesis
      using True assms(2) by (intro rnd_exact [where n = n and k = "expo m - 52 + 1"])
  next
    case False
    with nb have "\<bar>n\<bar> = 2 ^ 53" by simp
    then consider "n = 2 ^ 53" | "n = - (2 ^ 53)" by linarith
    then obtain h :: int where h: "n = 2 * h" "\<bar>h\<bar> < 2 ^ 53"
    proof cases
      case 1
      then have "n = 2 * 2 ^ 52" "\<bar>2 ^ 52 :: int\<bar> < 2 ^ 53" by simp_all
      then show ?thesis by (rule that)
    next
      case 2
      then have "n = 2 * (- (2 ^ 52))" "\<bar>- (2 ^ 52) :: int\<bar> < 2 ^ 53" by simp_all
      then show ?thesis by (rule that)
    qed
    have "of_int h * (4 * ulp m) = 2 * (of_int n * ulp m)" by (simp add: h(1))
    then have "2 * m = of_int h * 2 powr of_int (expo m - 52 + 2)"
      by (simp only: ulp_quadruple y)
    moreover have "- 1074 \<le> expo m - 52 + 2" using k by simp
    ultimately show ?thesis
      using h(2) assms(2) by (intro rnd_exact [where n = h and k = "expo m - 52 + 2"])
  qed
qed

lemma rnd_pos_cases:
  assumes "0 < x"
  shows "rnd x = PInf \<or>
    (\<exists>y. rnd x = Fin y \<and> y = of_int (round_even (x / ulp x)) * ulp x \<and> 0 \<le> y)"
proof -
  define n where "n = round_even (x / ulp x)"
  have "of_int 0 \<le> x / ulp x"
    using assms ulp_pos [of x] by (simp add: less_imp_le)
  then have "0 \<le> n" unfolding n_def by (rule round_even_ge)
  then have "0 \<le> of_int n * ulp x"
    using ulp_pos [of x] by (simp add: less_imp_le)
  then show ?thesis
    using assms by (cases "huge \<le> \<bar>of_int n * ulp x\<bar>") (simp_all add: rnd_def Let_def n_def)
qed

lemma rnd_lower_pos:
  assumes "rnd f = Fin f" and "f \<le> x" and "0 < x"
  shows "fle (Fin f) (rnd x)"
proof -
  from rnd_pos_cases [OF assms(3)] consider "rnd x = PInf"
    | y where "rnd x = Fin y" "y = of_int (round_even (x / ulp x)) * ulp x" "0 \<le> y"
    by blast
  then show ?thesis
  proof cases
  case 1
  then show ?thesis by simp
next
  case (2 y)
  note 3 = 2
  define n where "n = round_even (x / ulp x)"
  have y: "y = of_int n * ulp x" by (simp add: 3(2) n_def)
  have "f \<le> y"
  proof (cases "0 < f")
    case False
    with 3(3) show ?thesis by simp
  next
    case True
    then have f0: "f \<noteq> 0" by simp
    define k where "k = round_even (f / ulp f)"
    from assms(1) rnd_Fin_iff [OF f0, of f] have f: "f = of_int k * ulp f"
      unfolding k_def by blast
    from True assms(2) have le: "expo f \<le> expo x" by (rule expo_mono)
    show ?thesis
    proof (cases "expo f = expo x")
      case True
      then have u: "ulp f = ulp x" by (simp add: ulp_powr)
      from f have "f / ulp x = of_int k" 
        unfolding u by (metis nonzero_mult_div_cancel_right ulp_pos less_irrefl)
      moreover have "f / ulp x \<le> x / ulp x"
        using assms(2) ulp_pos [of x] by (intro divide_right_mono) simp_all
      ultimately have "of_int k \<le> x / ulp x" by simp
      then have "k \<le> n" unfolding n_def by (rule round_even_ge)
      then have "of_int k * ulp x \<le> of_int n * ulp x" by simp
      with f u y show ?thesis by simp
    next
      case False
      with le have lt: "expo f < expo x" by simp
      with expo_ge [of f] have "- 1022 < expo x" by linarith
      with assms(3) have "2 ^ 52 \<le> \<bar>x / ulp x\<bar>"
        by (intro quot_lower) simp_all
      then have "of_int (2 ^ 52) \<le> x / ulp x"
        using assms(3) by simp
      then have "2 ^ 52 \<le> n" unfolding n_def by (rule round_even_ge)
      then have "(2::real) ^ 52 \<le> of_int n"
        by (metis of_int_le_iff of_int_numeral of_int_power)
      then have "2 ^ 52 * ulp x \<le> of_int n * ulp x" by simp
      then have "2 powr of_int (expo x) \<le> y"
        by (simp only: ulp_times y)
      moreover have "f < 2 powr (of_int (expo f) + 1)"
        using expo_upper [OF f0] True by simp
      moreover have "(2::real) powr (of_int (expo f) + 1) \<le> 2 powr of_int (expo x)"
        using lt by (intro powr_mono) simp_all
      ultimately show ?thesis by linarith
    qed
  qed
  with 3(1) show ?thesis by simp
qed
qed

lemma rnd_overflow:
  assumes "huge \<le> x"
  shows "rnd x = PInf"
proof -
  have x: "0 < x" using assms huge_gt(3) by linarith
  have "(2::real) powr 1024 = huge" by (simp add: huge_def)
  then have "of_int 1024 \<le> log 2 \<bar>x\<bar>"
    using assms x by (simp add: le_log_iff)
  then have "1024 \<le> \<lfloor>log 2 \<bar>x\<bar>\<rfloor>" by (simp only: le_floor_iff)
  then have e: "1024 \<le> expo x" by (simp add: expo_log)
  then have "2 ^ 52 \<le> \<bar>x / ulp x\<bar>"
    using x by (intro quot_lower) simp_all
  then have "of_int (2 ^ 52) \<le> x / ulp x"
    using x by simp
  then have "2 ^ 52 \<le> round_even (x / ulp x)" by (rule round_even_ge)
  then have "(2::real) ^ 52 \<le> of_int (round_even (x / ulp x))"
    by (metis of_int_le_iff of_int_numeral of_int_power)
  then have "2 ^ 52 * ulp x \<le> of_int (round_even (x / ulp x)) * ulp x" by simp
  then have "2 powr of_int (expo x) \<le> of_int (round_even (x / ulp x)) * ulp x"
    by (simp only: ulp_times)
  moreover have "(2::real) powr 1024 \<le> 2 powr of_int (expo x)"
    using e by (intro powr_mono) simp_all
  ultimately have "huge \<le> \<bar>of_int (round_even (x / ulp x)) * ulp x\<bar>"
    using \<open>2 powr 1024 = huge\<close> by linarith
  then show ?thesis
    using x by (simp add: rnd_def Let_def)
qed

lemma rnd_eval:
  assumes "2 powr of_int e \<le> \<bar>x\<bar>" and "\<bar>x\<bar> < 2 powr (of_int e + 1)" and "- 1022 \<le> e"
    and "round_even (x / 2 powr (of_int e - 52)) = n"
    and "\<bar>of_int n * 2 powr (of_int e - 52)\<bar> < huge"
  shows "rnd x = Fin (of_int n * 2 powr (of_int e - 52))"
proof -
  have e: "expo x = e" using assms(1-3) by (rule expo_eqI)
  have "x \<noteq> 0" using assms(1) by (smt (verit) powr_gt_zero abs_zero)
  then show ?thesis
    using assms(4,5) by (simp add: rnd_Fin_iff ulp_powr e)
qed

section \<open>Facts about elements, reductions and element-wise application\<close>

lemma rnd_numeral [simp]:
  "numeral w < (2::int) ^ 53 \<Longrightarrow> rnd (numeral w) = Fin (numeral w)"
  using rnd_of_int [of "numeral w"] by simp

lemma rnd_neg_numeral [simp]:
  "numeral w < (2::int) ^ 53 \<Longrightarrow> rnd (- numeral w) = Fin (- numeral w)"
  using rnd_of_int [of "- numeral w"] by simp

lemma rnd_1 [simp]: "rnd 1 = Fin 1"
  using rnd_of_int [of 1] by simp

lemma rnd_neg_1 [simp]: "rnd (- 1) = Fin (- 1)"
  using rnd_of_int [of "- 1"] by simp

lemma rnd_dyadic:
  assumes "\<bar>n\<bar> < 2 ^ 53" and "k \<le> 1074"
  shows "rnd (of_int n / 2 ^ k) = Fin (of_int n / 2 ^ k)"
proof (rule rnd_exact [where n = n and k = "- int k"])
  have p: "(2::real) powr of_int (- int k) = 1 / 2 ^ k"
    by (simp add: powr_minus_divide powr_realpow)
  show "real_of_int n / 2 ^ k = of_int n * 2 powr of_int (- int k)"
    by (simp only: p) simp
  show "\<bar>n\<bar> < 2 ^ 53" by (rule assms)
  show "- 1074 \<le> - int k" using assms(2) by simp
  have "\<bar>of_int n / (2::real) ^ k\<bar> = \<bar>of_int n\<bar> / 2 ^ k" by simp
  also have "\<dots> \<le> \<bar>of_int n\<bar>"
    by (simp add: divide_le_eq_1 mult_le_cancel_left1 field_simps)
  also have "\<dots> < 2 ^ 53"
    using assms(1) by (metis of_int_abs of_int_less_iff of_int_numeral of_int_power)
  also have "\<dots> < huge" by (rule huge_gt)
  finally show "\<bar>of_int n / (2::real) ^ k\<bar> < huge" .
qed

lemma rnd_pow2:
  assumes "k < 1024"
  shows "rnd (2 ^ k) = Fin (2 ^ k)" and "rnd (- (2 ^ k)) = Fin (- (2 ^ k))"
proof -
  have b0: "(2::real) ^ k < huge"
    unfolding huge_def using assms by (intro power_strict_increasing) simp_all
  then have "(2::real) ^ k < 2 ^ 1024"
    by (simp only: huge_def)
  moreover have "\<bar>(2::real) ^ k\<bar> = 2 ^ k"
    by (rule abs_of_pos) simp
  ultimately have b: "\<bar>(2::real) ^ k\<bar> < huge"
    by (simp only: huge_def)
  show "rnd (2 ^ k) = Fin (2 ^ k)"
    by (rule rnd_exact [where n = 1 and k = "int k"]) (simp_all add: powr_realpow b b0)
  then show "rnd (- (2 ^ k)) = Fin (- (2 ^ k))"
    by (simp add: rnd_minus)
qed

lemma rnd_fractions [simp]:
  "rnd (1 / 2) = Fin (1 / 2)" "rnd (1 / 4) = Fin (1 / 4)" "rnd (1 / 8) = Fin (1 / 8)"
  using rnd_dyadic [of 1 1] rnd_dyadic [of 1 2] rnd_dyadic [of 1 3] by simp_all

lemma fadd_NaN_left [simp]: "fadd NaN x = NaN"
  by simp

lemma np_minimum_NaN [simp]: "np_minimum NaN b = NaN" "np_minimum a NaN = NaN"
  by (simp_all add: np_minimum_def)

lemma fold_np_minimum_NaN_acc: "fold np_minimum ys NaN = NaN"
  by (induction ys) simp_all

lemma fold_np_minimum_NaN: "NaN \<in> set (y # ys) \<Longrightarrow> fold np_minimum ys y = NaN"
proof (induction ys arbitrary: y)
  case Nil
  then show ?case by simp
next
  case (Cons a ys)
  show ?case
  proof (cases "y = NaN \<or> a = NaN")
    case True
    then have "np_minimum a y = NaN" by auto
    then show ?thesis by (simp add: fold_np_minimum_NaN_acc)
  next
    case False
    with Cons.prems have "NaN \<in> set (np_minimum a y # ys)" by auto
    from Cons.IH [OF this] show ?thesis by simp
  qed
qed

lemma amin1_NaN:
  assumes "NaN \<in> set xs"
  shows "amin1 xs = Inr NaN"
proof (cases xs)
  case Nil
  with assms show ?thesis by simp
next
  case (Cons y ys)
  with assms have "fold np_minimum ys y = NaN"
    by (intro fold_np_minimum_NaN) simp
  with Cons show ?thesis by (simp add: amin1_def)
qed

lemma fadd_NaN_right [simp]: "fadd x NaN = NaN"
  by (cases x) simp_all

lemma np_minimum_Fin [simp]: "np_minimum (Fin a) (Fin b) = Fin (min a b)"
  by (simp add: np_minimum_def min_def)

lemma np_maximum_Fin [simp]: "np_maximum (Fin a) (Fin b) = Fin (max a b)"
  by (simp add: np_maximum_def max_def)

lemma fold_np_minimum_Fin: "fold np_minimum (map Fin ys) (Fin y) = Fin (fold min ys y)"
  by (induction ys arbitrary: y) simp_all

lemma fold_np_maximum_Fin: "fold np_maximum (map Fin ys) (Fin y) = Fin (fold max ys y)"
  by (induction ys arbitrary: y) simp_all

lemma fold_min_Min: "fold min ys (y::real) = Min (insert y (set ys))"
  using Min.set_eq_fold [of y ys] by simp

lemma fold_max_Max: "fold max ys (y::real) = Max (insert y (set ys))"
  using Max.set_eq_fold [of y ys] by simp

lemma amin1_Fin: "xs \<noteq> [] \<Longrightarrow> amin1 (map Fin xs) = Inr (Fin (Min (set xs)))"
  by (cases xs) (simp_all add: amin1_def fold_np_minimum_Fin fold_min_Min)

lemma amax1_Fin: "xs \<noteq> [] \<Longrightarrow> amax1 (map Fin xs) = Inr (Fin (Max (set xs)))"
  by (cases xs) (simp_all add: amax1_def fold_np_maximum_Fin fold_max_Max)

lemma filter_not_NaN_Fin: "filter (\<lambda>x. x \<noteq> NaN) (map Fin xs) = map Fin xs"
  by (induction xs) simp_all

lemma nanmin_Fin: "xs \<noteq> [] \<Longrightarrow> nanmin (map Fin xs) = Fin (Min (set xs))"
  by (cases xs) (simp_all add: nanmin_def filter_not_NaN_Fin fold_np_minimum_Fin fold_min_Min)

lemma nanmax_Fin: "xs \<noteq> [] \<Longrightarrow> nanmax (map Fin xs) = Fin (Max (set xs))"
  by (cases xs) (simp_all add: nanmax_def filter_not_NaN_Fin fold_np_maximum_Fin fold_max_Max)

lemma concat_map_Fin: "concat (map (map Fin) R) = map Fin (concat R)"
  by (simp add: map_concat)

lemma np_amin_Fin:
  "concat R \<noteq> [] \<Longrightarrow> np_amin (map (map Fin) R) = Inr (Fin (Min (set (concat R))))"
  unfolding np_amin_def concat_map_Fin by (rule amin1_Fin)

lemma map_err_total:
  "(\<And>x. x \<in> set xs \<Longrightarrow> f (h x) = Inr (g x)) \<Longrightarrow> map_err f (map h xs) = Inr (map g xs)"
  by (induction xs) simp_all

section \<open>Facts about rectangular arrays and the transpose\<close>

lemma ncols_map [simp]: "ncols (map (map f) m) = ncols m"
  by (cases m) (simp_all add: ncols_def)

lemma rect_map [simp]: "rect (map (map f) m) = rect m"
  by (cases m) (simp_all add: rect_def list_all_iff)

lemma rect_row: "rect m \<Longrightarrow> row \<in> set m \<Longrightarrow> length row = ncols m"
  by (cases m) (auto simp: rect_def ncols_def list_all_iff)

lemma rect_nth: "rect m \<Longrightarrow> i < length m \<Longrightarrow> length (m ! i) = ncols m"
  by (rule rect_row) simp_all

lemma np_transpose_length [simp]: "length (np_transpose m) = ncols m"
  by (simp add: np_transpose_def)

lemma np_transpose_nth: "j < ncols m \<Longrightarrow> np_transpose m ! j = map (\<lambda>r. r ! j) m"
  by (simp add: np_transpose_def)

lemma ncols_I: "m \<noteq> [] \<Longrightarrow> length (m ! 0) = n \<Longrightarrow> ncols m = n"
  by (cases m) (simp_all add: ncols_def)

lemma ncols_transpose: "ncols m \<noteq> 0 \<Longrightarrow> ncols (np_transpose m) = length m"
proof (rule ncols_I)
  assume k: "ncols m \<noteq> 0"
  then show "np_transpose m \<noteq> []"
    by (metis length_0_conv np_transpose_length)
  from k show "length (np_transpose m ! 0) = length m"
    by (simp add: np_transpose_nth)
qed

lemma rect_transpose: "rect (np_transpose m)"
  by (auto simp: rect_def list_all_iff np_transpose_def hd_map upt_conv_Cons)

lemma row_as_map_nth: "rect m \<Longrightarrow> i < length m \<Longrightarrow> map (\<lambda>j. m ! i ! j) [0..<ncols m] = m ! i"
  using map_nth [of "m ! i"] by (simp add: rect_nth)

lemma np_transpose_involution:
  assumes "rect m" and "ncols m \<noteq> 0"
  shows "np_transpose (np_transpose m) = m"
proof (rule nth_equalityI)
  show len: "length (np_transpose (np_transpose m)) = length m"
    using assms(2) by (simp add: ncols_transpose)
  fix i
  assume "i < length (np_transpose (np_transpose m))"
  with len have i: "i < length m" by simp
  then have "np_transpose (np_transpose m) ! i = map (\<lambda>c. c ! i) (np_transpose m)"
    using assms(2) by (simp add: np_transpose_nth ncols_transpose)
  also have "\<dots> = map (\<lambda>j. m ! i ! j) [0..<ncols m]"
    using i by (simp add: np_transpose_def)
  also have "\<dots> = m ! i"
    using assms(1) i by (rule row_as_map_nth)
  finally show "np_transpose (np_transpose m) ! i = m ! i" .
qed

lemma transpose_rowwise:
  assumes "rect M" and "ncols M \<noteq> 0" and "length ps = length M"
  shows "np_transpose (map (\<lambda>row. map (\<lambda>(x, p). f x p) (zip row ps)) (np_transpose M)) =
    map (\<lambda>(row, p). map (\<lambda>x. f x p) row) (zip M ps)"
proof -
  define Y where "Y = map (\<lambda>row. map (\<lambda>(x, p). f x p) (zip row ps)) (np_transpose M)"
  have lY: "length Y = ncols M"
    by (simp add: Y_def)
  have Yj: "Y ! j = map (\<lambda>i. f (M ! i ! j) (ps ! i)) [0..<length M]" if "j < ncols M" for j
  proof -
    have "Y ! j = map (\<lambda>(x, p). f x p) (zip (map (\<lambda>r. r ! j) M) ps)"
      using that by (simp add: Y_def np_transpose_nth)
    also have "\<dots> = map (\<lambda>i. f (M ! i ! j) (ps ! i)) [0..<length M]"
      using assms(3) by (intro nth_equalityI) simp_all
    finally show ?thesis .
  qed
  have nY: "ncols Y = length M"
  proof (rule ncols_I)
    show "Y \<noteq> []"
      using assms(2) lY by auto
    have "0 < ncols M" using assms(2) by simp
    then show "length (Y ! 0) = length M"
      by (simp only: Yj length_map length_upt diff_zero)
  qed
  have "np_transpose Y = map (\<lambda>(row, p). map (\<lambda>x. f x p) row) (zip M ps)"
  proof (rule nth_equalityI)
    show "length (np_transpose Y) = length (map (\<lambda>(row, p). map (\<lambda>x. f x p) row) (zip M ps))"
      using assms(3) by (simp add: nY)
    fix i
    assume "i < length (np_transpose Y)"
    then have i: "i < length M" by (simp add: nY)
    have "np_transpose Y ! i = map (\<lambda>r. r ! i) Y"
      using i by (simp add: np_transpose_nth nY)
    also have "\<dots> = map (\<lambda>j. Y ! j ! i) [0..<ncols M]"
      using lY by (intro nth_equalityI) simp_all
    also have "\<dots> = map (\<lambda>j. f (M ! i ! j) (ps ! i)) [0..<ncols M]"
      using i by (simp add: Yj)
    also have "\<dots> = map (\<lambda>x. f x (ps ! i)) (map (\<lambda>j. M ! i ! j) [0..<ncols M])"
      by simp
    also have "\<dots> = map (\<lambda>x. f x (ps ! i)) (M ! i)"
      using assms(1) i by (simp only: row_as_map_nth)
    also have "\<dots> = map (\<lambda>(row, p). map (\<lambda>x. f x p) row) (zip M ps) ! i"
      using i assms(3) by simp
    finally show "np_transpose Y ! i = map (\<lambda>(row, p). map (\<lambda>x. f x p) row) (zip M ps) ! i" .
  qed
  then show ?thesis by (simp only: Y_def)
qed

lemma np_transpose_map: "rect m \<Longrightarrow> np_transpose (map (map f) m) = map (map f) (np_transpose m)"
  by (auto simp: np_transpose_def rect_row)

lemma zip_map_same: "zip (map g xs) (map h xs) = map (\<lambda>x. (g x, h x)) xs"
  by (induction xs) simp_all

lemma ncols_nonempty: "ncols m \<noteq> 0 \<Longrightarrow> m \<noteq> []"
  by (auto simp: ncols_def)

lemma rows_nonempty: "rect m \<Longrightarrow> ncols m \<noteq> 0 \<Longrightarrow> row \<in> set m \<Longrightarrow> row \<noteq> []"
  using rect_row by fastforce

lemma rect_map_rows: "rect R \<Longrightarrow> rect (map (\<lambda>row. map (g row) row) R)"
  by (cases R) (auto simp: rect_def list_all_iff)

lemma ncols_map_rows: "ncols (map (\<lambda>row. map (g row) row) R) = ncols R"
  by (cases R) (simp_all add: ncols_def)

lemma ncols_concat: "rect R \<Longrightarrow> ncols R \<noteq> 0 \<Longrightarrow> concat R \<noteq> []"
  by (cases R) (auto simp: ncols_def)

lemma concat_transpose_mem:
  assumes "rect a" and "x \<in> set (concat a)"
  shows "x \<in> set (concat (np_transpose a))"
proof -
  from assms(2) obtain row where row: "row \<in> set a" "x \<in> set row" by auto
  then obtain i where i: "i < length a" "a ! i = row"
    by (auto simp: in_set_conv_nth)
  from row(2) obtain j where j: "j < length row" "row ! j = x"
    by (auto simp: in_set_conv_nth)
  from assms(1) row(1) j(1) have jc: "j < ncols a"
    by (simp add: rect_row)
  then have "np_transpose a ! j = map (\<lambda>r. r ! j) a"
    by (rule np_transpose_nth)
  moreover have "x = (\<lambda>r. r ! j) (a ! i)"
    using i j by simp
  moreover have "a ! i \<in> set a"
    using i(1) by simp
  ultimately have "x \<in> set (np_transpose a ! j)"
    by (simp only: set_map image_eqI)
  moreover have "np_transpose a ! j \<in> set (np_transpose a)"
    using jc by simp
  ultimately show ?thesis by auto
qed

section \<open>The min-max scaler\<close>

lemma sk_fit_rows:
  assumes "rect R" and "ncols R \<noteq> 0"
  shows "sk_fit (np_transpose (map (map Fin) R)) = row_scaler R"
proof -
  have cols: "np_transpose (np_transpose (map (map Fin) R)) = map (map Fin) R"
    using assms by (intro np_transpose_involution) simp_all
  have ne: "row \<noteq> []" if "row \<in> set R" for row
    using assms that by (rule rows_nonempty)
  have dmin: "map nanmin (map (map Fin) R) = map (\<lambda>row. Fin (Min (set row))) R"
    by (simp add: ne nanmin_Fin)
  have dmax: "map nanmax (map (map Fin) R) = map (\<lambda>row. Fin (Max (set row))) R"
    by (simp add: ne nanmax_Fin)
  show ?thesis
    unfolding sk_fit_def cols dmin dmax Let_def row_scaler_def
    by (simp add: zip_map_same row_range_def row_scale_def row_offset_def)
qed

lemma check_array_rows:
  assumes "rect R" and "ncols R \<noteq> 0"
  shows "check_array (np_transpose (map (map Fin) R))"
proof -
  have "np_transpose (map (map Fin) R) = map (map Fin) (np_transpose R)"
    using assms(1) by (rule np_transpose_map)
  moreover have "\<not> list_ex is_inf (concat (map (map Fin) X))" for X
    by (auto simp: list_ex_iff is_inf_def)
  moreover have "np_transpose R \<noteq> []"
    using assms(2) by (metis length_0_conv np_transpose_length)
  moreover have "ncols (np_transpose R) \<noteq> 0"
    using assms(2) ncols_nonempty [of R] by (simp add: ncols_transpose)
  ultimately show ?thesis
    by (simp add: check_array_def)
qed

lemma transform_rows:
  assumes "rect R" and "ncols R \<noteq> 0"
  shows "np_transpose (sk_transform (row_scaler R) (np_transpose (map (map Fin) R))) =
    map (\<lambda>row. map (row_minmax row) row) R"
proof -
  let ?ps = "map (\<lambda>row. (row_scale row, row_offset row)) R"
  let ?f = "\<lambda>x p. case p of (s, m) \<Rightarrow> fadd (fmul x s) m"
  have "np_transpose (sk_transform (row_scaler R) (np_transpose (map (map Fin) R))) =
      np_transpose (map (\<lambda>row. map (\<lambda>(x, p). ?f x p) (zip row ?ps)) (np_transpose (map (map Fin) R)))"
    by (simp add: sk_transform_def row_scaler_def zip_map_same)
  also have "\<dots> = map (\<lambda>(row, p). map (\<lambda>x. ?f x p) row) (zip (map (map Fin) R) ?ps)"
    using assms by (intro transpose_rowwise) simp_all
  also have "\<dots> = map (\<lambda>row. map (row_minmax row) row) R"
    by (simp add: zip_map_same comp_def row_minmax_def)
  finally show ?thesis .
qed

lemma minmax_scale_Fin:
  assumes "rect R" and "ncols R \<noteq> 0" and "s ! data = map (map Fin) R"
  shows "minmax_scale s data =
    (s @ [map (\<lambda>row. map (row_minmax row) row) R], Inr (length s, row_scaler R))"
  using assms
  by (simp add: minmax_scale_def fit_transform_def check_array_rows sk_fit_rows transform_rows
      alloc_def Let_def)

lemma minmax_scale_inf:
  assumes "rect a" and "list_ex is_inf (concat a)"
  shows "fit_transform (np_transpose a) = Inl ValueError"
proof -
  from assms(2) obtain x where x: "x \<in> set (concat a)" "is_inf x"
    unfolding list_ex_iff by (rule bexE)
  from assms(1) x(1) have "x \<in> set (concat (np_transpose a))"
    by (rule concat_transpose_mem)
  then have "list_ex is_inf (concat (np_transpose a))"
    using x(2) unfolding list_ex_iff by (rule rev_bexI)
  then show ?thesis
    unfolding fit_transform_def check_array_def by (simp only: simp_thms if_False)
qed

lemma minmax_scale_frame: "fst (minmax_scale s data) ! data = s ! data" if "data < length s"
  using that
  by (auto simp: minmax_scale_def alloc_def nth_append split: sum.splits prod.splits)

lemma rnd_minus_divide: "rnd (- x / y) = fneg (rnd (x / y))"
  using rnd_minus [of "x / y"] by simp

lemma rnd_tenth: "rnd (1 / 10) = Fin tenth"
proof -
  have "rnd (1 / 10) = Fin (of_int 7205759403792794 * 2 powr (of_int (- 4) - 52))"
    by (rule rnd_eval) (simp_all add: round_even_def huge_def powr_minus_divide)
  then show ?thesis by (simp add: powr_minus_divide tenth_def)
qed

lemma rnd_tenth_multiples:
  "rnd (5 * tenth) = Fin (1 / 2)" "rnd (10 * tenth) = Fin 1"
  "rnd (15 * tenth) = Fin (3 / 2)" "rnd (20 * tenth) = Fin 2"
proof -
  have "rnd (5 * tenth) = Fin (of_int 4503599627370496 * 2 powr (of_int (- 1) - 52))"
    by (rule rnd_eval) (simp_all add: round_even_def huge_def powr_minus_divide tenth_def)
  then show "rnd (5 * tenth) = Fin (1 / 2)" by (simp add: powr_minus_divide)
  have "rnd (10 * tenth) = Fin (of_int 4503599627370496 * 2 powr (of_int 0 - 52))"
    by (rule rnd_eval) (simp_all add: round_even_def huge_def powr_minus_divide tenth_def)
  then show "rnd (10 * tenth) = Fin 1" by (simp add: powr_minus_divide)
  have "rnd (15 * tenth) = Fin (of_int 6755399441055744 * 2 powr (of_int 0 - 52))"
    by (rule rnd_eval) (simp_all add: round_even_def huge_def powr_minus_divide tenth_def)
  then show "rnd (15 * tenth) = Fin (3 / 2)" by (simp add: powr_minus_divide)
  have "rnd (20 * tenth) = Fin (of_int 4503599627370496 * 2 powr (of_int 1 - 52))"
    by (rule rnd_eval) (simp_all add: round_even_def huge_def powr_minus_divide tenth_def)
  then show "rnd (20 * tenth) = Fin 2" by (simp add: powr_minus_divide)
qed

lemma rnd_three_halves: "rnd (3 / 2) = Fin (3 / 2)"
  using rnd_dyadic [of 3 1] by simp

lemma not_tiny: "\<not> (10::real) < 10 * machine_eps" "\<not> (5::real) < 10 * machine_eps"
  "\<not> (4::real) < 10 * machine_eps" "\<not> (1::real) < 10 * machine_eps"
  by (simp_all add: machine_eps_def)

lemmas eval_row = row_minmax_def row_offset_def row_scale_def row_range_def fsub_def
  not_tiny rnd_minus rnd_minus_divide

lemma example_rows:
  "map (row_minmax [0, 10]) [0, 10] = [Fin 0, Fin 1]"
  "map (row_minmax [5, 15]) [5, 15] = [Fin 0, Fin 1]"
  "map (row_minmax [10, 20]) [10, 20] = [Fin 0, Fin 1]"
  by (simp_all add: eval_row rnd_tenth rnd_tenth_multiples rnd_three_halves)

text \<open>
  Claim C1, as stated, fails. On the matrix of three trials \<open>[[0,10],[5,15],[10,20]]\<close> the
  code returns \<open>[[0,1],[0,1],[0,1]]\<close>: every trial (row) is scaled with its own minimum and
  maximum. The per-column formula of the claim gives \<open>[[0,0],[1/2,1/2],[1,1]]\<close>.
\<close>

theorem minmax_scale_per_column_counterexample:
  "scaled_array (minmax_scale [[[Fin 0, Fin 10], [Fin 5, Fin 15], [Fin 10, Fin 20]]] 0) =
     Inr [[Fin 0, Fin 1], [Fin 0, Fin 1], [Fin 0, Fin 1]] \<and>
   map (map Fin) (column_minmax [[0, 10], [5, 15], [10, 20]]) =
     [[Fin 0, Fin 0], [Fin (1 / 2), Fin (1 / 2)], [Fin 1, Fin 1]] \<and>
   scaled_array (minmax_scale [[[Fin 0, Fin 10], [Fin 5, Fin 15], [Fin 10, Fin 20]]] 0) \<noteq>
     Inr (map (map Fin) (column_minmax [[0, 10], [5, 15], [10, 20]]))"
proof -
  let ?R = "[[0, 10], [5, 15], [10, 20 :: real]]"
  have h: "rect ?R" "ncols ?R \<noteq> 0"
    "[[[Fin 0, Fin 10], [Fin 5, Fin 15], [Fin 10, Fin 20]]] ! 0 = map (map Fin) ?R"
    by (simp_all add: rect_def ncols_def)
  have code: "scaled_array (minmax_scale [[[Fin 0, Fin 10], [Fin 5, Fin 15], [Fin 10, Fin 20]]] 0) =
     Inr [[Fin 0, Fin 1], [Fin 0, Fin 1], [Fin 0, Fin 1]]"
    unfolding minmax_scale_Fin [OF h] scaled_array_def
    using example_rows by simp
  have spec: "map (map Fin) (column_minmax [[0, 10], [5, 15], [10, 20]]) =
     [[Fin 0, Fin 0], [Fin (1 / 2), Fin (1 / 2)], [Fin 1, Fin 1]]"
    by (simp add: column_minmax_def np_transpose_def ncols_def upt_conv_Cons)
  show ?thesis
    unfolding code spec by simp
qed

text \<open>
  Claim C1, amended. For every rectangular matrix of finite values with at least one row and
  one column, the MinMax scaler fits one (min, max) pair per row (per trial, across the time
  samples of that trial): \<open>data_min\<close> and \<open>data_max\<close> hold the minimum and maximum of every
  row. It maps every row with the affine map of that row: the entry at row \<open>i\<close>, column \<open>j\<close>
  of the scaled output is \<open>M[i][j] * scale_i + offset_i\<close>, where
  \<open>scale_i = 1 / (max_i - min_i)\<close> (\<open>1 / 1\<close> where the range is below ten machine epsilons)
  and \<open>offset_i = 0 - min_i * scale_i\<close>, every operation rounded to float64.
\<close>

theorem minmax_scale_per_row:
  assumes "rect R" and "ncols R \<noteq> 0" and "data < length s" and "s ! data = map (map Fin) R"
  shows "\<exists>s' r sc. minmax_scale s data = (s', Inr (r, sc)) \<and>
     data_min sc = map (\<lambda>row. Fin (Min (set row))) R \<and>
     data_max sc = map (\<lambda>row. Fin (Max (set row))) R \<and>
     sk_scale sc = map row_scale R \<and> sk_min sc = map row_offset R \<and>
     s' ! r = map (\<lambda>row. map (\<lambda>x. fadd (fmul (Fin x) (row_scale row)) (row_offset row)) row) R"
  unfolding minmax_scale_Fin [OF assms(1,2,4)]
  by (simp add: row_scaler_def row_minmax_def [abs_def])

theorem minmax_scale_per_row_witness:
  "rect [[0, 10], [5, 15], [10, 20 :: real]] \<and> ncols [[0, 10], [5, 15], [10, 20 :: real]] \<noteq> 0 \<and>
   (\<exists>s' r sc. minmax_scale [[[Fin 0, Fin 10], [Fin 5, Fin 15], [Fin 10, Fin 20]]] 0 =
        (s', Inr (r, sc)) \<and>
      data_min sc = [Fin 0, Fin 5, Fin 10] \<and> data_max sc = [Fin 10, Fin 15, Fin 20] \<and>
      sk_scale sc = [Fin tenth, Fin tenth, Fin tenth] \<and>
      sk_min sc = [Fin 0, Fin (- (1 / 2)), Fin (- 1)] \<and>
      s' ! r = [[Fin 0, Fin 1], [Fin 0, Fin 1], [Fin 0, Fin 1]])"
proof -
  let ?R = "[[0, 10], [5, 15], [10, 20 :: real]]"
  let ?s = "[[[Fin 0, Fin 10], [Fin 5, Fin 15], [Fin 10, Fin 20]]]"
  have h: "rect ?R" "ncols ?R \<noteq> 0" "0 < length ?s" "?s ! 0 = map (map Fin) ?R"
    by (simp_all add: rect_def ncols_def)
  have sc: "row_scale [0, 10] = Fin tenth" "row_scale [5, 15] = Fin tenth"
    "row_scale [10, 20] = Fin tenth"
    "row_offset [0, 10] = Fin 0" "row_offset [5, 15] = Fin (- (1 / 2))"
    "row_offset [10, 20] = Fin (- 1)"
    by (simp_all add: eval_row rnd_tenth rnd_tenth_multiples)
  show ?thesis
    using h(1,2) minmax_scale_per_row [OF h] example_rows
    by (simp add: sc row_minmax_def [abs_def])
qed












section \<open>The log scaler\<close>

lemma rnd_absorb: "rnd (1 + 2 ^ 60) = Fin (2 ^ 60)"
proof -
  have "rnd (1 + 2 ^ 60) = Fin (of_int (2 ^ 52) * 2 powr (of_int 60 - 52))"
    by (rule rnd_eval) (simp_all add: round_even_def huge_def)
  then show ?thesis by simp
qed

lemma rnd_2_60: "rnd (2 ^ 60) = Fin (2 ^ 60)"
  by (rule rnd_pow2) simp

lemma shift_absorbed:
  "shift_in_place [[[Fin (- (2 ^ 60)), Fin 0]]] 0 = ([[[Fin 0, Fin (2 ^ 60)]]], Inr (Fin (2 ^ 60)))"
proof -
  have m: "np_amin ([[[Fin (- (2 ^ 60)), Fin 0]]] ! 0) = Inr (Fin (- (2 ^ 60)))"
    by (simp add: np_amin_def amin1_def np_minimum_def)
  show ?thesis
    using m rnd_absorb rnd_2_60 by (simp add: shift_in_place_def Let_def)
qed

text \<open>
  Claim C9 against the code. On the matrix \<open>[[-2^60, 0]]\<close> of finite values the shift
  \<open>1 + abs(min)\<close> is computed as \<open>2^60\<close> (the sum \<open>1 + 2^60\<close> rounds to \<open>2^60\<close>), so after
  \<^verbatim>\<open>data += inc\<close> the array is \<open>[[0, 2^60]]\<close>: the value 0 is fed to the logarithm, and
  \<open>log_scale\<close> ends with the \<^verbatim>\<open>ValueError\<close> of \<^verbatim>\<open>math.log\<close>, leaving the argument shifted.
\<close>

theorem log_scale_shift_not_positive:
  "shift_in_place [[[Fin (- (2 ^ 60)), Fin 0]]] 0 = ([[[Fin 0, Fin (2 ^ 60)]]], Inr (Fin (2 ^ 60))) \<and>
   \<not> list_all fpos (concat (fst (shift_in_place [[[Fin (- (2 ^ 60)), Fin 0]]] 0) ! 0)) \<and>
   log_scale [[[Fin (- (2 ^ 60)), Fin 0]]] 0 = ([[[Fin 0, Fin (2 ^ 60)]]], Inl ValueError)"
  unfolding log_scale_def shift_absorbed
  by (simp add: np_vectorize_def)

section \<open>Both scalers\<close>

lemma overflow_row:
  assumes "huge \<le> b + b"
  shows "row_range [- b, b] = PInf" "row_scale [- b, b] = Fin 0" "row_offset [- b, b] = Fin 0"
proof -
  have "0 < huge"
    by (simp add: huge_def)
  then have b: "0 < b"
    using assms by linarith
  have "rnd (b + b) = PInf"
    using assms by (rule rnd_overflow)
  then show r: "row_range [- b, b] = PInf"
    using b by (simp add: row_range_def fsub_def)
  show s: "row_scale [- b, b] = Fin 0"
    unfolding row_scale_def r by (simp add: fsub_def)
  show "row_offset [- b, b] = Fin 0"
    unfolding row_offset_def s by (simp add: fsub_def)
qed

text \<open>
  Claim C3 against the code. In Log mode, \<open>log_scale\<close> raises \<^verbatim>\<open>ValueError\<close> on the matrix
  \<open>[[-2^60, 0]]\<close> of finite values, so there is no scaled output to invert. In MinMax mode,
  on \<open>[[-2^1023, 2^1023]]\<close> the range \<open>max - min\<close> overflows to infinity, the scale is 0 and
  the scaled output \<open>[[0, 0]]\<close>; the inverse transform of the fitted scaler divides 0 by 0
  and returns \<open>[[NaN, NaN]]\<close>, not the matrix.
\<close>

theorem scaler_round_trip_fails:
  "log_scale [[[Fin (- (2 ^ 60)), Fin 0]]] 0 = ([[[Fin 0, Fin (2 ^ 60)]]], Inl ValueError) \<and>
   (\<exists>s' r sc. minmax_scale [[[Fin (- (2 ^ 1023)), Fin (2 ^ 1023)]]] 0 = (s', Inr (r, sc)) \<and>
      data_range sc = [PInf] \<and> sk_scale sc = [Fin 0] \<and> s' ! r = [[Fin 0, Fin 0]] \<and>
      np_transpose (sk_inverse_transform sc (np_transpose (s' ! r))) = [[NaN, NaN]])"
proof -
  define b :: real where "b = 2 ^ 1023"
  have big: "huge \<le> b + b"
    by (simp add: huge_def b_def)
  note ov = overflow_row [OF big]
  let ?R = "[[- b, b]]"
  have h: "rect ?R" "ncols ?R \<noteq> 0" "[[[Fin (- b), Fin b]]] ! 0 = map (map Fin) ?R"
    by (simp_all add: rect_def ncols_def)
  have lg: "log_scale [[[Fin (- (2 ^ 60)), Fin 0]]] 0 = ([[[Fin 0, Fin (2 ^ 60)]]], Inl ValueError)"
    unfolding log_scale_def shift_absorbed by (simp add: np_vectorize_def)
  have inv: "np_transpose (sk_inverse_transform (row_scaler ?R) (np_transpose [[Fin 0, Fin 0]])) =
      [[NaN, NaN]]"
    by (simp add: row_scaler_def ov sk_inverse_transform_def np_transpose_def ncols_def
        upt_conv_Cons fsub_def signed_inf_def)
  have "\<exists>s' r sc. minmax_scale [[[Fin (- b), Fin b]]] 0 = (s', Inr (r, sc)) \<and>
      data_range sc = [PInf] \<and> sk_scale sc = [Fin 0] \<and> s' ! r = [[Fin 0, Fin 0]] \<and>
      np_transpose (sk_inverse_transform sc (np_transpose (s' ! r))) = [[NaN, NaN]]"
    unfolding minmax_scale_Fin [OF h]
    using inv by (simp add: row_scaler_def ov row_minmax_def)
  then show ?thesis
    unfolding b_def using lg by blast
qed

lemma vectorize_log_NaN:
  fixes a :: "'a list list"
  assumes "concat a \<noteq> []"
  shows "np_vectorize py_log (map (map (\<lambda>x. NaN)) a) = Inr (map (map (\<lambda>x. NaN)) a)"
proof -
  have row: "map_err py_log (map (\<lambda>x. NaN) r) = Inr (map (\<lambda>x. NaN) r)" for r :: "'a list"
    by (rule map_err_total) simp
  have "map_err (map_err py_log) (map (map (\<lambda>x. NaN)) a) = Inr (map (map (\<lambda>x. NaN)) a)"
    by (rule map_err_total) (simp add: row)
  moreover have "concat (map (map (\<lambda>x. NaN)) a) \<noteq> []"
    using assms by (induction a) auto
  ultimately show ?thesis
    by (simp add: np_vectorize_def)
qed

lemma log_scale_NaN:
  assumes "NaN \<in> set (concat (s ! data))" and "data < length s"
  shows "log_scale s data =
    (s[data := map (map (\<lambda>x. NaN)) (s ! data)] @ [map (map (\<lambda>x. NaN)) (s ! data)],
     Inr (length s, NaN))"
proof -
  have "np_amin (s ! data) = Inr NaN"
    unfolding np_amin_def using assms(1) by (rule amin1_NaN)
  then have sh: "shift_in_place s data = (s[data := map (map (\<lambda>x. NaN)) (s ! data)], Inr NaN)"
    by (simp add: shift_in_place_def)
  have ne: "concat (s ! data) \<noteq> []"
    using assms(1) by (metis empty_iff empty_set)
  show ?thesis
    unfolding log_scale_def sh
    using assms(2) by (simp add: vectorize_log_NaN [OF ne] alloc_def)
qed

text \<open>
  Claim C7, as stated, fails in Log mode. On \<open>[[NaN, 0], [3, inf]]\<close> the call of
  \<open>log_scale\<close> does not fail: it returns the shift NaN and an array of NaN, and the caller's
  array holds NaN everywhere afterwards.
\<close>

theorem log_scale_nan_counterexample:
  "log_scale [[[NaN, Fin 0], [Fin 3, PInf]]] 0 =
     ([[[NaN, NaN], [NaN, NaN]], [[NaN, NaN], [NaN, NaN]]], Inr (1, NaN))"
proof -
  have "NaN \<in> set (concat ([[[NaN, Fin 0], [Fin 3, PInf]]] ! 0))"
    "0 < length [[[NaN, Fin 0], [Fin 3, PInf]]]"
    by simp_all
  then show ?thesis
    by (simp add: log_scale_NaN)
qed

text \<open>
  Claim C7, amended. The scalers make no finiteness check of their own. In Log mode, for
  every matrix that contains a NaN, \<open>log_scale\<close> returns a result: the shift is NaN, the
  scaled array holds NaN everywhere, and so does the caller's array after the call. In
  MinMax mode, for every rectangular matrix that contains an infinity, \<open>minmax_scale\<close> ends
  with the \<^verbatim>\<open>ValueError\<close> of the library's input validation and leaves the store as it was.
\<close>

theorem scalers_on_non_finite:
  assumes "data < length s"
  shows "(NaN \<in> set (concat (s ! data)) \<longrightarrow>
      log_scale s data =
        (s[data := map (map (\<lambda>x. NaN)) (s ! data)] @ [map (map (\<lambda>x. NaN)) (s ! data)],
         Inr (length s, NaN))) \<and>
    (rect (s ! data) \<and> list_ex is_inf (concat (s ! data)) \<longrightarrow>
      minmax_scale s data = (s, Inl ValueError))"
proof (intro conjI impI)
  assume "NaN \<in> set (concat (s ! data))"
  then show "log_scale s data =
      (s[data := map (map (\<lambda>x. NaN)) (s ! data)] @ [map (map (\<lambda>x. NaN)) (s ! data)],
       Inr (length s, NaN))"
    using assms by (rule log_scale_NaN)
next
  assume "rect (s ! data) \<and> list_ex is_inf (concat (s ! data))"
  then have "fit_transform (np_transpose (s ! data)) = Inl ValueError"
    using minmax_scale_inf by blast
  then show "minmax_scale s data = (s, Inl ValueError)"
    by (simp add: minmax_scale_def)
qed

theorem scalers_on_non_finite_witness:
  "0 < length [[[NaN, Fin 0], [Fin 3, PInf]]] \<and>
   NaN \<in> set (concat ([[[NaN, Fin 0], [Fin 3, PInf]]] ! 0)) \<and>
   rect ([[[NaN, Fin 0], [Fin 3, PInf]]] ! 0) \<and>
   list_ex is_inf (concat ([[[NaN, Fin 0], [Fin 3, PInf]]] ! 0)) \<and>
   log_scale [[[NaN, Fin 0], [Fin 3, PInf]]] 0 =
     ([[[NaN, NaN], [NaN, NaN]], [[NaN, NaN], [NaN, NaN]]], Inr (1, NaN)) \<and>
   minmax_scale [[[NaN, Fin 0], [Fin 3, PInf]]] 0 =
     ([[[NaN, Fin 0], [Fin 3, PInf]]], Inl ValueError)"
proof -
  let ?s = "[[[NaN, Fin 0], [Fin 3, PInf]]]"
  have h: "0 < length ?s" by simp
  have n: "NaN \<in> set (concat (?s ! 0))" by simp
  have r: "rect (?s ! 0)" by (simp add: rect_def)
  have i: "list_ex is_inf (concat (?s ! 0))" by (simp add: is_inf_def)
  from scalers_on_non_finite [OF h] n r i
  have "log_scale ?s 0 =
      (?s[0 := map (map (\<lambda>x. NaN)) (?s ! 0)] @ [map (map (\<lambda>x. NaN)) (?s ! 0)], Inr (length ?s, NaN))"
    and "minmax_scale ?s 0 = (?s, Inl ValueError)"
    by blast+
  then show ?thesis
    using h n r i by simp
qed

lemma shifted_min_differs: "fadd (Fin m) (fadd (Fin 1) (Fin \<bar>m\<bar>)) \<noteq> Fin m"
proof
  assume eq: "fadd (Fin m) (fadd (Fin 1) (Fin \<bar>m\<bar>)) = Fin m"
  have one: "fle (Fin 1) (rnd (1 + \<bar>m\<bar>))"
    by (rule rnd_lower_pos) simp_all
  obtain i where i: "rnd (1 + \<bar>m\<bar>) = Fin i"
    using eq by (cases "rnd (1 + \<bar>m\<bar>)") simp_all
  have i1: "1 \<le> i"
    using one i by simp
  have sum: "rnd (m + i) = Fin m"
    using eq i by simp
  then have rm: "rnd m = Fin m"
    by (rule rnd_range)
  have ra: "rnd \<bar>m\<bar> = Fin \<bar>m\<bar>"
  proof (cases "m < 0")
    case True
    then have "rnd \<bar>m\<bar> = rnd (- m)" by simp
    also have "\<dots> = Fin (- m)" by (simp add: rnd_minus rm)
    finally show ?thesis using True by simp
  next
    case False
    then show ?thesis using rm by simp
  qed
  have "fle (Fin \<bar>m\<bar>) (rnd (1 + \<bar>m\<bar>))"
    by (rule rnd_lower_pos [OF ra]) simp_all
  then have im: "\<bar>m\<bar> \<le> i"
    using i by simp
  show False
  proof (cases "m < 0")
    case True
    then have nn: "0 \<le> m + i"
      using im by simp
    show False
    proof (cases "m + i = 0")
      case True
      with sum have "Fin 0 = Fin m" by simp
      with \<open>m < 0\<close> show False by simp
    next
      case False
      with nn have "0 < m + i" by simp
      then have "fle (Fin 0) (rnd (m + i))"
        by (intro rnd_lower_pos) simp_all
      with sum \<open>m < 0\<close> show False by simp
    qed
  next
    case nonneg: False
    show False
    proof (cases "m < 1")
      case True
      have "fle (Fin 1) (rnd (m + i))"
        using nonneg i1 by (intro rnd_lower_pos) simp_all
      with sum True show False by simp
    next
      case False
      then have m1: "1 \<le> m" by simp
      then have mi: "2 * m \<le> m + i"
        using im by simp
      show False
      proof (cases "huge \<le> m + i")
        case True
        then have "rnd (m + i) = PInf" by (rule rnd_overflow)
        with sum show False by simp
      next
        case False
        then have "\<bar>2 * m\<bar> < huge"
          using mi m1 by simp
        with rm have "rnd (2 * m) = Fin (2 * m)"
          by (rule rnd_double)
        then have "fle (Fin (2 * m)) (rnd (m + i))"
          using mi m1 by (intro rnd_lower_pos) simp_all
        with sum m1 show False by simp
      qed
    qed
  qed
qed

lemma shifted_differs:
  assumes "concat R \<noteq> []"
  shows "map (map (\<lambda>x. fadd (Fin x) (fadd (Fin 1) (Fin \<bar>Min (set (concat R))\<bar>)))) R \<noteq>
    map (map Fin) R"
proof
  let ?inc = "fadd (Fin 1) (Fin \<bar>Min (set (concat R))\<bar>)"
  assume "map (map (\<lambda>x. fadd (Fin x) ?inc)) R = map (map Fin) R"
  then have "concat (map (map (\<lambda>x. fadd (Fin x) ?inc)) R) = concat (map (map Fin) R)"
    by (rule arg_cong)
  then have "map (\<lambda>x. fadd (Fin x) ?inc) (concat R) = map Fin (concat R)"
    by (simp only: map_concat)
  then have eq: "\<forall>x\<in>set (concat R). fadd (Fin x) ?inc = Fin x"
    by (simp only: map_eq_conv)
  have "Min (set (concat R)) \<in> set (concat R)"
    using assms by (intro Min_in) simp_all
  with eq have "fadd (Fin (Min (set (concat R)))) ?inc = Fin (Min (set (concat R)))"
    by blast
  then show False
    using shifted_min_differs by blast
qed

lemma shift_in_place_length: "length (fst (shift_in_place s data)) = length s"
  by (simp add: shift_in_place_def Let_def split: sum.splits)

lemma log_scale_store:
  assumes "u < length s"
  shows "fst (log_scale s data) ! u = fst (shift_in_place s data) ! u"
proof -
  have "u < length (fst (shift_in_place s data))"
    using assms by (simp add: shift_in_place_length)
  then show ?thesis
    by (cases "shift_in_place s data")
      (auto simp: log_scale_def alloc_def nth_append split: sum.splits)
qed

lemma shift_in_place_Fin:
  assumes "concat R \<noteq> []" and "u < length s" and "s ! u = map (map Fin) R"
  shows "fst (shift_in_place s u) ! u =
    map (map (\<lambda>x. fadd (Fin x) (fadd (Fin 1) (Fin \<bar>Min (set (concat R))\<bar>)))) R"
  using assms(2)
  by (simp add: shift_in_place_def assms(3) np_amin_Fin [OF assms(1)] Let_def comp_def)

text \<open>
  Claim C8 against the code. For every matrix of finite values with at least one element,
  held by the caller under the reference \<open>u\<close>: scaling in MinMax mode leaves the caller's
  array as it was, but scaling in Log mode leaves it shifted, every entry increased (in
  float64) by \<open>1 + abs(min(matrix))\<close>, so the caller's unscaled data no longer hold their
  original values. This is so whether or not the logarithm that follows raises.
\<close>

theorem scale_data_effect_on_argument:
  assumes "concat R \<noteq> []" and "u < length s" and "s ! u = map (map Fin) R"
  shows "fst (scale_data Minmax s u) ! u = s ! u \<and>
         fst (scale_data Log s u) ! u =
           map (map (\<lambda>x. fadd (Fin x) (fadd (Fin 1) (Fin \<bar>Min (set (concat R))\<bar>)))) R \<and>
         fst (scale_data Log s u) ! u \<noteq> s ! u"
proof -
  have "fst (scale_data Minmax s u) = fst (minmax_scale s u)"
    by (simp add: scale_data_def split: prod.splits sum.splits)
  then have mm: "fst (scale_data Minmax s u) ! u = s ! u"
    using assms(2) by (simp add: minmax_scale_frame)
  have "fst (scale_data Log s u) = fst (log_scale s u)"
    by (simp add: scale_data_def split: prod.splits sum.splits)
  then have lg: "fst (scale_data Log s u) ! u =
      map (map (\<lambda>x. fadd (Fin x) (fadd (Fin 1) (Fin \<bar>Min (set (concat R))\<bar>)))) R"
    using assms by (simp add: log_scale_store shift_in_place_Fin)
  have "fst (scale_data Log s u) ! u \<noteq> s ! u"
    unfolding lg assms(3) using assms(1) by (rule shifted_differs)
  with mm lg show ?thesis
    by blast
qed

theorem scale_data_effect_on_argument_witness:
  "concat [[- 2, 0], [3, 5 :: real]] \<noteq> [] \<and>
   fst (scale_data Minmax [[[Fin (- 2), Fin 0], [Fin 3, Fin 5]]] 0) ! 0 =
     [[Fin (- 2), Fin 0], [Fin 3, Fin 5]] \<and>
   fst (scale_data Log [[[Fin (- 2), Fin 0], [Fin 3, Fin 5]]] 0) ! 0 =
     [[Fin 1, Fin 3], [Fin 6, Fin 8]] \<and>
   fst (scale_data Log [[[Fin (- 2), Fin 0], [Fin 3, Fin 5]]] 0) ! 0 \<noteq>
     [[Fin (- 2), Fin 0], [Fin 3, Fin 5]]"
proof -
  let ?R = "[[- 2, 0], [3, 5 :: real]]"
  let ?s = "[[[Fin (- 2), Fin 0], [Fin 3, Fin 5]]]"
  have h: "concat ?R \<noteq> []" "0 < length ?s" "?s ! 0 = map (map Fin) ?R"
    by simp_all
  show ?thesis
    using h(1) scale_data_effect_on_argument [OF h]
    by simp
qed

section \<open>Inverse scaling in the driver\<close>

lemma example_row_values:
  "row_minmax [0, 0, 0, 0, 0, 0, 1] 0 = Fin 0" "row_minmax [0, 0, 0, 0, 0, 0, 1] 1 = Fin 1"
  "row_minmax [0, 0, 0, 0, 0, 2, 4] 0 = Fin 0" "row_minmax [0, 0, 0, 0, 0, 2, 4] 2 = Fin (1 / 2)"
  "row_minmax [0, 0, 0, 0, 0, 2, 4] 4 = Fin 1"
  "row_range [0, 0, 0, 0, 0, 0, 1] = Fin 1" "row_range [0, 0, 0, 0, 0, 2, 4] = Fin 4"
  "row_scale [0, 0, 0, 0, 0, 0, 1] = Fin 1" "row_scale [0, 0, 0, 0, 0, 2, 4] = Fin (1 / 4)"
  "row_offset [0, 0, 0, 0, 0, 0, 1] = Fin 0" "row_offset [0, 0, 0, 0, 0, 2, 4] = Fin 0"
  by (simp_all add: eval_row)

lemma example_fit:
  "minmax_scale [map (map Fin) example_trials] 0 =
     ([map (map Fin) example_trials, example_scaled], Inr (1, example_scaler))"
proof -
  have r: "rect example_trials" "ncols example_trials \<noteq> 0"
    by (simp_all add: example_trials_def rect_def ncols_def list_all_iff)
  have "[map (map Fin) example_trials] ! 0 = map (map Fin) example_trials"
    by simp
  from minmax_scale_Fin [OF r this] show ?thesis
    by (simp add: example_trials_def example_scaled_def example_scaler_def row_scaler_def
        example_row_values)
qed

lemma example_split: "create_dataset example_scaled input_size = Inr example_dataset"
  by (simp add: create_dataset_def example_scaled_def example_dataset_def slice_def
      input_size_def min_def)

text \<open>
  Claim C5, as stated, fails in MinMax mode. On the example data (trial 29 is the only
  validation trial; its scaled tail is \<open>[1/2, 1]\<close>) the code reports \<open>[2, 4]\<close>, the result
  of the rescaling \<open>v * (4 - 0) + 0\<close> alone. Inverting with the retained scaler state and
  rescaling in addition, as the claim says, would report \<open>[8, 16]\<close>.
\<close>

theorem report_minmax_counterexample:
  "minmax_scale [map (map Fin) example_trials] 0 =
     ([map (map Fin) example_trials, example_scaled], Inr (1, example_scaler)) \<and>
   create_dataset example_scaled input_size = Inr example_dataset \<and>
   validation_input example_dataset = [[Fin 0, Fin 0, Fin 0, Fin 0, Fin 0, Fin (1 / 2), Fin 1]] \<and>
   report (MinMaxState example_scaler) CPU (map (map Fin) example_trials)
       (validation_input example_dataset) example_forecast =
     ([PlotResults (A2 [[Fin (1 / 2)], [Fin 1]]) (A2 [[Fin (1 / 2)], [Fin 1]]),
       PlotResults (A2 [[Fin 2], [Fin 4]]) (A2 [[Fin 2], [Fin 4]])], None) \<and>
   spec_report_minmax example_scaler 29 CPU (map (map Fin) example_trials)
       (validation_input example_dataset) example_forecast input_size =
     ([PlotResults (A2 [[Fin (1 / 2)], [Fin 1]]) (A2 [[Fin (1 / 2)], [Fin 1]]),
       PlotResults (A2 [[Fin 8], [Fin 16]]) (A2 [[Fin 8], [Fin 16]])], None) \<and>
   report (MinMaxState example_scaler) CPU (map (map Fin) example_trials)
       (validation_input example_dataset) example_forecast \<noteq>
     spec_report_minmax example_scaler 29 CPU (map (map Fin) example_trials)
       (validation_input example_dataset) example_forecast input_size"
proof -
  have v: "validation_input example_dataset =
      [[Fin 0, Fin 0, Fin 0, Fin 0, Fin 0, Fin (1 / 2), Fin 1]]"
    by (simp add: example_dataset_def)
  have lastU: "last (map (map Fin) example_trials) = map Fin [0, 0, 0, 0, 0, 2, 4]"
    by (simp add: example_trials_def)
  have ne: "map (map Fin) example_trials \<noteq> []"
    by (simp add: example_trials_def)
  have lim: "amin1 (map Fin [0, 0, 0, 0, 0, 2, 4]) = Inr (Fin 0)"
    "amax1 (map Fin [0, 0, 0, 0, 0, 2, 4]) = Inr (Fin 4)"
    using amin1_Fin [of "[0, 0, 0, 0, 0, 2, 4]"] amax1_Fin [of "[0, 0, 0, 0, 0, 2, 4]"]
    by simp_all
  have code: "report (MinMaxState example_scaler) CPU (map (map Fin) example_trials)
       (validation_input example_dataset) example_forecast =
     ([PlotResults (A2 [[Fin (1 / 2)], [Fin 1]]) (A2 [[Fin (1 / 2)], [Fin 1]]),
       PlotResults (A2 [[Fin 2], [Fin 4]]) (A2 [[Fin 2], [Fin 4]])], None)"
    unfolding report_def report_minmax_def v lastU lim
    using ne by (simp add: example_forecast_def input_size_def reshape_col_def rescale_def
        fsub_def Let_def)
  have sc: "sk_min example_scaler ! 29 = Fin 0" "sk_scale example_scaler ! 29 = Fin (1 / 4)"
    by (simp_all add: example_scaler_def nth_append)
  have spec: "spec_report_minmax example_scaler 29 CPU (map (map Fin) example_trials)
       (validation_input example_dataset) example_forecast input_size =
     ([PlotResults (A2 [[Fin (1 / 2)], [Fin 1]]) (A2 [[Fin (1 / 2)], [Fin 1]]),
       PlotResults (A2 [[Fin 8], [Fin 16]]) (A2 [[Fin 8], [Fin 16]])], None)"
    unfolding spec_report_minmax_def v lastU lim sc
    using ne by (simp add: example_forecast_def input_size_def reshape_col_def rescale_def
        fsub_def Let_def)
  show ?thesis
    unfolding code spec using example_fit example_split v by simp
qed

lemma map_err_length: "map_err f xs = Inr ys \<Longrightarrow> length ys = length xs"
  by (induction xs arbitrary: ys) (auto split: sum.splits)

lemma log_scale_rows:
  assumes "log_scale s u = (s1, Inr (data, inc))" and "u < length s"
  shows "length (s1 ! data) = length (s ! u)"
proof -
  obtain sA r where sh: "shift_in_place s u = (sA, r)"
    by (cases "shift_in_place s u")
  with assms(1) obtain i where r: "r = Inr i"
    by (cases r) (simp_all add: log_scale_def)
  from sh r have sA: "sA = s[u := map (map (\<lambda>x. fadd x i)) (s ! u)]"
    by (auto simp: shift_in_place_def Let_def split: sum.splits)
  from assms(1) sh r obtain ds where ds: "np_vectorize py_log (sA ! u) = Inr ds"
    and res: "s1 = sA @ [ds]" "data = length sA"
    by (auto simp: log_scale_def alloc_def split: sum.splits)
  from ds have "length ds = length (sA ! u)"
    by (auto simp: np_vectorize_def map_err_length split: if_splits)
  then show ?thesis
    using assms(2) by (simp add: res sA nth_append)
qed

lemma vectorize_log_pos:
  assumes "concat R \<noteq> []" and "list_all (\<lambda>x. 0 < x) (concat R)"
  shows "np_vectorize py_log (map (map Fin) R) =
    Inr (map (map (\<lambda>x. fdiv (rnd (ln x)) (rnd (ln log_base)))) R)"
proof -
  have row: "map_err py_log (map Fin r) = Inr (map (\<lambda>x. fdiv (rnd (ln x)) (rnd (ln log_base))) r)"
    if "r \<in> set R" for r
  proof (rule map_err_total)
    fix x assume "x \<in> set r"
    with that assms(2) have "0 < x"
      by (auto simp: list_all_iff)
    then show "py_log (Fin x) = Inr (fdiv (rnd (ln x)) (rnd (ln log_base)))"
      by simp
  qed
  have "map_err (map_err py_log) (map (map Fin) R) =
      Inr (map (map (\<lambda>x. fdiv (rnd (ln x)) (rnd (ln log_base)))) R)"
    by (rule map_err_total) (rule row)
  moreover have "concat (map (map Fin) R) \<noteq> []"
    using assms(1) by (simp add: concat_map_Fin)
  ultimately show ?thesis
    by (simp add: np_vectorize_def)
qed

text \<open>
  Claim C5, amended. Let the matrix of finite values be rectangular with at least 30
  trials, let scaling succeed with the store \<open>s1\<close>, the scaled array \<open>s1 ! data\<close> and the
  state \<open>st\<close>, let \<open>d\<close> be the split of the scaled array, and let the training and evaluation
  loop on \<open>d\<close> make the calls \<open>trace w\<close> and return the forecast \<open>fc\<close> of at least one row.
  Then the run on the CPU device ends without error, and after the calls of the loop (and
  of saving) it plots: in MinMax mode the tail of the scaled trial 29 and the forecast of
  the first validation row without its last element, as they are, and then both after the
  rescaling \<open>v * (b - a) + a\<close> alone, where \<open>a\<close> and \<open>b\<close> are the minimum and maximum of the
  last row of the original unscaled matrix (the inverse of the retained scaler is not
  applied, the scaler state is not referred to); in Log mode one plot, of the tail of the
  scaled trial 29 and of the forecast after \<open>inv_logscale\<close> with the retained shift.
\<close>

theorem main_report:
  assumes "rect R" and "ncols R \<noteq> 0" and "30 \<le> length R"
    and "np_transpose channel_data = map (map Fin) R"
    and "scale_data (scaler a) [map (map Fin) R] 0 = (s1, Inr (data, st))"
    and "create_dataset (s1 ! data) input_size = Inr d"
    and "train_and_forecast c d (future a) \<lparr>model = m0, trace = []\<rparr> = (w, fc)"
    and "fc \<noteq> []"
  shows "main a channel_data c m0 CPU =
    (trace w @ (if save a then [SaveModel] else []) @
     (case st of
        MinMaxState sc \<Rightarrow>
          [PlotResults (A2 (reshape_col (drop input_size (s1 ! data ! 29))))
             (A2 (reshape_col (butlast (hd fc)))),
           PlotResults
             (A2 (rescale (Fin (Min (set (last R)))) (Fin (Max (set (last R))))
                (reshape_col (drop input_size (s1 ! data ! 29)))))
             (A2 (rescale (Fin (Min (set (last R)))) (Fin (Max (set (last R))))
                (reshape_col (butlast (hd fc)))))]
      | LogState inc \<Rightarrow>
          [PlotResults (A1 (inv_logscale (drop input_size (s1 ! data ! 29)) inc))
             (A1 (inv_logscale (hd fc) inc))]),
     None)"
proof -
  let ?M = "map (map Fin) R"
  from assms(3) have ne: "R \<noteq> []" by auto
  then have "last R \<in> set R" by simp
  with assms(1,2) have lne: "last R \<noteq> []" by (rule rows_nonempty)
  have v: "validation_input d = drop 29 (s1 ! data)"
    using assms(6) by (auto simp: create_dataset_def)
  show ?thesis
  proof (cases "scaler a")
    case Minmax
    have run: "minmax_scale [?M] 0 =
        ([?M, map (\<lambda>row. map (row_minmax row) row) R], Inr (1, row_scaler R))"
      using minmax_scale_Fin [OF assms(1,2), of "[?M]" 0] by simp
    from assms(5) have s1: "s1 = [?M, map (\<lambda>row. map (row_minmax row) row) R]"
      and data: "data = 1" and st: "st = MinMaxState (row_scaler R)"
      unfolding Minmax scale_data_def run by simp_all
    have len: "30 \<le> length (s1 ! data)"
      using assms(3) by (simp add: s1 data)
    have V: "validation_input d \<noteq> []" "hd (validation_input d) = s1 ! data ! 29"
      using len by (simp_all add: v hd_drop_conv_nth)
    have lastU: "last (s1 ! 0) = map Fin (last R)"
      using ne by (simp add: s1 last_map)
    have lim: "amin1 (map Fin (last R)) = Inr (Fin (Min (set (last R))))"
      "amax1 (map Fin (last R)) = Inr (Fin (Max (set (last R))))"
      using lne by (simp_all add: amin1_Fin amax1_Fin)
    have U: "s1 ! 0 \<noteq> []"
      using ne by (simp add: s1)
    have rep: "report st CPU (s1 ! 0) (validation_input d) fc =
      ([PlotResults (A2 (reshape_col (drop input_size (s1 ! data ! 29))))
             (A2 (reshape_col (butlast (hd fc)))),
           PlotResults
             (A2 (rescale (Fin (Min (set (last R)))) (Fin (Max (set (last R))))
                (reshape_col (drop input_size (s1 ! data ! 29)))))
             (A2 (rescale (Fin (Min (set (last R)))) (Fin (Max (set (last R))))
                (reshape_col (butlast (hd fc)))))], None)"
      unfolding report_def st report_minmax_def lastU lim
      using V U assms(8) by (simp add: Let_def)
    show ?thesis
      unfolding main_def alloc_def assms(4)
      using assms(5,6,7) rep by (simp add: st)
  next
    case Log
    from assms(5) obtain inc where run: "log_scale [?M] 0 = (s1, Inr (data, inc))"
      and st: "st = LogState inc"
      unfolding Log scale_data_def by (auto split: prod.splits sum.splits)
    have len: "30 \<le> length (s1 ! data)"
      using log_scale_rows [OF run] assms(3) by simp
    have V: "validation_input d \<noteq> []" "hd (validation_input d) = s1 ! data ! 29"
      using len by (simp_all add: v hd_drop_conv_nth)
    have rep: "report st CPU (s1 ! 0) (validation_input d) fc =
      ([PlotResults (A1 (inv_logscale (drop input_size (s1 ! data ! 29)) inc))
             (A1 (inv_logscale (hd fc) inc))], None)"
      unfolding report_def st report_log_def
      using V assms(8) by (simp add: Let_def)
    show ?thesis
      unfolding main_def alloc_def assms(4)
      using assms(5,6,7) rep by (simp add: st)
  qed
qed

theorem main_report_witness:
  "rect example_trials \<and> ncols example_trials \<noteq> 0 \<and> 30 \<le> length example_trials \<and>
   scale_data Minmax [map (map Fin) example_trials] 0 =
     ([map (map Fin) example_trials, example_scaled], Inr (1, MinMaxState example_scaler)) \<and>
   create_dataset example_scaled input_size = Inr example_dataset \<and>
   train_and_forecast example_collaborators example_dataset 1 \<lparr>model = (), trace = []\<rparr> =
     (\<lparr>model = (), trace = example_calls\<rparr>, example_forecast) \<and>
   example_forecast \<noteq> [] \<and>
   main \<lparr>save = False, future = 1, scaler = Minmax\<rparr>
       (np_transpose (map (map Fin) example_trials)) example_collaborators () CPU =
     (example_calls @
      [PlotResults (A2 [[Fin (1 / 2)], [Fin 1]]) (A2 [[Fin (1 / 2)], [Fin 1]]),
       PlotResults (A2 [[Fin 2], [Fin 4]]) (A2 [[Fin 2], [Fin 4]])], None) \<and>
   (\<exists>s1 d w.
      scale_data Log [map (map Fin) example_trials] 0 = (s1, Inr (1, LogState (Fin 1))) \<and>
      s1 ! 0 = map (map Fin) example_shifted \<and>
      create_dataset (s1 ! 1) input_size = Inr d \<and>
      train_and_forecast example_collaborators d 1 \<lparr>model = (), trace = []\<rparr> =
        (w, example_forecast) \<and>
      main \<lparr>save = True, future = 1, scaler = Log\<rparr>
          (np_transpose (map (map Fin) example_trials)) example_collaborators () CPU =
        (trace w @ [SaveModel] @
         [PlotResults (A1 (inv_logscale (drop input_size (s1 ! 1 ! 29)) (Fin 1)))
            (A1 (inv_logscale [Fin (1 / 2), Fin 1, Fin 0] (Fin 1)))], None))"
proof -
  let ?a = "\<lparr>save = False, future = 1, scaler = Minmax\<rparr>"
  have r: "rect example_trials" "ncols example_trials \<noteq> 0" "30 \<le> length example_trials"
    by (simp_all add: example_trials_def rect_def ncols_def list_all_iff)
  have t: "np_transpose (np_transpose (map (map Fin) example_trials)) = map (map Fin) example_trials"
    using r(1,2) by (intro np_transpose_involution) simp_all
  have sd: "scale_data (scaler ?a) [map (map Fin) example_trials] 0 =
      ([map (map Fin) example_trials, example_scaled], Inr (1, MinMaxState example_scaler))"
    by (simp add: scale_data_def example_fit)
  have cd: "create_dataset ([map (map Fin) example_trials, example_scaled] ! 1) input_size =
      Inr example_dataset"
    by (simp add: example_split)
  have tf: "train_and_forecast example_collaborators example_dataset (future ?a)
      \<lparr>model = (), trace = []\<rparr> = (\<lparr>model = (), trace = example_calls\<rparr>, example_forecast)"
    by (simp add: train_and_forecast_def example_collaborators_def call_test_def call_train_def
        example_calls_def example_forecast_def)
  have fc: "example_forecast \<noteq> []"
    by (simp add: example_forecast_def)
  have plots: "[map (map Fin) example_trials, example_scaled] ! 1 ! 29 =
      [Fin 0, Fin 0, Fin 0, Fin 0, Fin 0, Fin (1 / 2), Fin 1]"
    "last example_trials = [0, 0, 0, 0, 0, 2, 4]"
    "butlast (hd example_forecast) = [Fin (1 / 2), Fin 1]"
    by (simp_all add: example_scaled_def example_trials_def example_forecast_def nth_append)
  have res: "rescale (Fin 0) (Fin 4) [[Fin (1 / 2)], [Fin 1]] = [[Fin 2], [Fin 4]]"
    by (simp add: rescale_def fsub_def)
  from main_report [OF r t sd cd tf fc]
  have "main ?a (np_transpose (map (map Fin) example_trials)) example_collaborators () CPU =
     (example_calls @
      [PlotResults (A2 [[Fin (1 / 2)], [Fin 1]]) (A2 [[Fin (1 / 2)], [Fin 1]]),
       PlotResults (A2 [[Fin 2], [Fin 4]]) (A2 [[Fin 2], [Fin 4]])], None)"
    unfolding plots by (simp add: input_size_def reshape_col_def res)
  then have mm: "main ?a (np_transpose (map (map Fin) example_trials)) example_collaborators () CPU =
     (example_calls @
      [PlotResults (A2 [[Fin (1 / 2)], [Fin 1]]) (A2 [[Fin (1 / 2)], [Fin 1]]),
       PlotResults (A2 [[Fin 2], [Fin 4]]) (A2 [[Fin 2], [Fin 4]])], None)" .
  let ?b = "\<lparr>save = True, future = 1, scaler = Log\<rparr>"
  let ?g = "\<lambda>x. fdiv (rnd (ln x)) (rnd (ln log_base))"
  let ?s1 = "[map (map Fin) example_shifted, map (map ?g) example_shifted]"
  have mn: "np_amin ([map (map Fin) example_trials] ! 0) = Inr (Fin 0)"
    using np_amin_Fin [of example_trials] by (simp add: example_trials_def)
  have sh: "shift_in_place [map (map Fin) example_trials] 0 =
      ([map (map Fin) example_shifted], Inr (Fin 1))"
    unfolding shift_in_place_def mn
    by (simp add: example_trials_def example_shifted_def Let_def)
  have pos: "concat example_shifted \<noteq> []" "list_all (\<lambda>x. 0 < x) (concat example_shifted)"
    by (auto simp: example_shifted_def list_all_iff)
  have lg: "log_scale [map (map Fin) example_trials] 0 = (?s1, Inr (1, Fin 1))"
    unfolding log_scale_def sh
    by (simp add: vectorize_log_pos [OF pos] alloc_def)
  have sdl: "scale_data (scaler ?b) [map (map Fin) example_trials] 0 =
      (?s1, Inr (1, LogState (Fin 1)))"
    by (simp add: scale_data_def lg)
  obtain d where d: "create_dataset (?s1 ! 1) input_size = Inr d"
    by (simp add: create_dataset_def)
  obtain w where w: "train_and_forecast example_collaborators d (future ?b)
      \<lparr>model = (), trace = []\<rparr> = (w, example_forecast)"
    by (simp add: train_and_forecast_def example_collaborators_def call_test_def
        example_forecast_def)
  from main_report [OF r t sdl d w fc]
  have "main ?b (np_transpose (map (map Fin) example_trials)) example_collaborators () CPU =
      (trace w @ [SaveModel] @
       [PlotResults (A1 (inv_logscale (drop input_size (?s1 ! 1 ! 29)) (Fin 1)))
          (A1 (inv_logscale [Fin (1 / 2), Fin 1, Fin 0] (Fin 1)))], None)"
    by (simp add: example_forecast_def)
  with sdl d w have "\<exists>s1 d w.
      scale_data Log [map (map Fin) example_trials] 0 = (s1, Inr (1, LogState (Fin 1))) \<and>
      s1 ! 0 = map (map Fin) example_shifted \<and>
      create_dataset (s1 ! 1) input_size = Inr d \<and>
      train_and_forecast example_collaborators d 1 \<lparr>model = (), trace = []\<rparr> =
        (w, example_forecast) \<and>
      main \<lparr>save = True, future = 1, scaler = Log\<rparr>
          (np_transpose (map (map Fin) example_trials)) example_collaborators () CPU =
        (trace w @ [SaveModel] @
         [PlotResults (A1 (inv_logscale (drop input_size (s1 ! 1 ! 29)) (Fin 1)))
            (A1 (inv_logscale [Fin (1 / 2), Fin 1, Fin 0] (Fin 1)))], None)"
    by (intro exI [of _ ?s1] exI [of _ d] exI [of _ w]) simp
  then show ?thesis
    using r sd example_split tf fc mm by simp
qed

end
